theory Spec2Isabelle
  imports Complex_Main "HOL-Library.Word" "HOL-Library.Sublist"
begin

unbundle bit_operations_syntax

section \<open>JavaScript values\<close>

text \<open>
  A JavaScript string is a sequence of 16-bit code units; a \<open>Uint8Array\<close> is a list of
  bytes. String literals of the source are ASCII and are written with \<open>str\<close>. An exception
  is an \<open>Error\<close> object, of which the source only ever reads the \<open>message\<close>; every
  \<open>throw\<close> of the source is an \<open>Inl\<close> result of the model.
\<close>

type_synonym byte = "8 word"
type_synonym jsstring = "16 word list"

definition str :: "string \<Rightarrow> jsstring" where
  "str s = map (\<lambda>c. of_nat (of_char c)) s"

datatype js_error = Error (message: string)

text \<open>\<open>error.message.includes(s)\<close>: \<open>s\<close> occurs as a contiguous part of the message.\<close>

definition message_includes :: "string \<Rightarrow> string \<Rightarrow> bool" where
  "message_includes msg s = sublist s msg"

text \<open>
  The random source \<open>crypto.getRandomValues\<close> is a state: the bytes it will hand out, in
  order. Filling a \<open>Uint8Array\<close> of \<open>n\<close> bytes takes the next \<open>n\<close> of them. The Web
  Crypto API refuses more than 65536 bytes in one call.
\<close>

type_synonym random_source = "nat \<Rightarrow> byte"

definition getRandomValues :: "random_source \<Rightarrow> nat \<Rightarrow> (js_error + byte list) \<times> random_source" where
  "getRandomValues rng n =
     (if n > 65536 then (Inl (Error ''QuotaExceededError''), rng)
      else (Inr (map rng [0..<n]), (\<lambda>i. rng (i + n))))"

section \<open>Data model (types)\<close>

record PasswordEntry =
  entry_id :: jsstring
  site :: jsstring
  username :: jsstring
  password :: jsstring
  createdAt :: jsstring
  updatedAt :: jsstring

record User =
  user_username :: jsstring
  vault_file :: jsstring

record AuthState =
  isLoggedIn :: bool
  currentUser :: "User option"
  isLoading :: bool

record VaultState =
  entries :: "PasswordEntry list"
  isLocked :: bool
  masterPassword :: "jsstring option"

text \<open>\<open>Partial<PasswordEntry>\<close>: every field may be absent.\<close>

record PartialEntry =
  p_id :: "jsstring option"
  p_site :: "jsstring option"
  p_username :: "jsstring option"
  p_password :: "jsstring option"
  p_createdAt :: "jsstring option"
  p_updatedAt :: "jsstring option"

section \<open>Text encoding (TextEncoder, TextDecoder)\<close>

text \<open>
  \<open>new TextEncoder().encode(s)\<close> converts \<open>s\<close> to a sequence of scalar values (an unpaired
  surrogate becomes U+FFFD) and writes each in UTF-8. \<open>new TextDecoder().decode(bytes)\<close> is
  the UTF-8 decoder of the Encoding Standard in its default mode: an ill-formed sequence
  becomes U+FFFD, and one leading byte order mark U+FEFF is removed from the output.
\<close>

definition is_high_surrogate :: "16 word \<Rightarrow> bool" where
  "is_high_surrogate c \<longleftrightarrow> 0xD800 \<le> c \<and> c \<le> 0xDBFF"

definition is_low_surrogate :: "16 word \<Rightarrow> bool" where
  "is_low_surrogate c \<longleftrightarrow> 0xDC00 \<le> c \<and> c \<le> 0xDFFF"

fun utf16_decode :: "jsstring \<Rightarrow> nat list" where
  "utf16_decode [] = []"
| "utf16_decode [c] =
     [if is_high_surrogate c \<or> is_low_surrogate c then 0xFFFD else unat c]"
| "utf16_decode (c # d # r) =
     (if is_high_surrogate c \<and> is_low_surrogate d then
        (0x10000 + (unat c - 0xD800) * 0x400 + (unat d - 0xDC00)) # utf16_decode r
      else if is_high_surrogate c \<or> is_low_surrogate c then 0xFFFD # utf16_decode (d # r)
      else unat c # utf16_decode (d # r))"

definition utf16_encode_cp :: "nat \<Rightarrow> jsstring" where
  "utf16_encode_cp cp =
     (if cp < 0x10000 then [of_nat cp]
      else [of_nat (0xD800 + (cp - 0x10000) div 0x400), of_nat (0xDC00 + (cp - 0x10000) mod 0x400)])"

definition utf8_encode_cp :: "nat \<Rightarrow> nat list" where
  "utf8_encode_cp cp =
     (if cp < 0x80 then [cp]
      else if cp < 0x800 then [0xC0 + cp div 64, 0x80 + cp mod 64]
      else if cp < 0x10000 then [0xE0 + cp div 4096, 0x80 + (cp div 64) mod 64, 0x80 + cp mod 64]
      else [0xF0 + cp div 262144, 0x80 + (cp div 4096) mod 64, 0x80 + (cp div 64) mod 64,
            0x80 + cp mod 64])"

definition TextEncoder_encode :: "jsstring \<Rightarrow> byte list" where
  "TextEncoder_encode s = map of_nat (concat (map utf8_encode_cp (utf16_decode s)))"

text \<open>The state of the UTF-8 decoder, as the Encoding Standard names it.\<close>

record utf8_state =
  code_point :: nat
  bytes_seen :: nat
  bytes_needed :: nat
  lower_boundary :: nat
  upper_boundary :: nat

definition utf8_init :: utf8_state where
  "utf8_init = \<lparr>code_point = 0, bytes_seen = 0, bytes_needed = 0,
                 lower_boundary = 0x80, upper_boundary = 0xBF\<rparr>"

function utf8_decoder :: "utf8_state \<Rightarrow> nat list \<Rightarrow> nat list" where
  "utf8_decoder st [] = (if bytes_needed st \<noteq> 0 then [0xFFFD] else [])"
| "utf8_decoder st (b # bs) =
     (if bytes_needed st = 0 then
        (if b \<le> 0x7F then b # utf8_decoder st bs
         else if 0xC2 \<le> b \<and> b \<le> 0xDF then
           utf8_decoder (st\<lparr>bytes_needed := 1, code_point := b mod 32\<rparr>) bs
         else if 0xE0 \<le> b \<and> b \<le> 0xEF then
           utf8_decoder (st\<lparr>lower_boundary := (if b = 0xE0 then 0xA0 else lower_boundary st),
                              upper_boundary := (if b = 0xED then 0x9F else upper_boundary st),
                              bytes_needed := 2, code_point := b mod 16\<rparr>) bs
         else if 0xF0 \<le> b \<and> b \<le> 0xF4 then
           utf8_decoder (st\<lparr>lower_boundary := (if b = 0xF0 then 0x90 else lower_boundary st),
                              upper_boundary := (if b = 0xF4 then 0x8F else upper_boundary st),
                              bytes_needed := 3, code_point := b mod 8\<rparr>) bs
         else 0xFFFD # utf8_decoder st bs)
      else if \<not> (lower_boundary st \<le> b \<and> b \<le> upper_boundary st) then
        0xFFFD # utf8_decoder utf8_init (b # bs)
      else
        (let st' = st\<lparr>lower_boundary := 0x80, upper_boundary := 0xBF,
                       code_point := code_point st * 64 + b mod 64,
                       bytes_seen := bytes_seen st + 1\<rparr>
         in if bytes_seen st' \<noteq> bytes_needed st' then utf8_decoder st' bs
            else code_point st' # utf8_decoder utf8_init bs))"
  by pat_completeness auto
termination
  by (relation "measure (\<lambda>(st, bs). 2 * length bs + (if bytes_needed st = 0 then 0 else 1))")
     (auto simp: utf8_init_def)

definition TextDecoder_decode :: "byte list \<Rightarrow> jsstring" where
  "TextDecoder_decode bytes =
     (let cps = utf8_decoder utf8_init (map unat bytes);
          cps' = (case cps of [] \<Rightarrow> [] | cp # r \<Rightarrow> if cp = 0xFEFF then r else cps)
      in concat (map utf16_encode_cp cps'))"

text \<open>\<open>String.prototype.isWellFormed\<close>: no unpaired surrogate.\<close>

fun isWellFormed :: "jsstring \<Rightarrow> bool" where
  "isWellFormed [] = True"
| "isWellFormed [c] = (\<not> is_high_surrogate c \<and> \<not> is_low_surrogate c)"
| "isWellFormed (c # d # r) =
     (if is_high_surrogate c then is_low_surrogate d \<and> isWellFormed r
      else \<not> is_low_surrogate c \<and> isWellFormed (d # r))"

section \<open>Base64 (btoa, atob)\<close>

definition base64chars :: jsstring where
  "base64chars = str ''ABCDEFGHIJKLMNOPQRSTUVWXYZabcdefghijklmnopqrstuvwxyz0123456789+/''"

text \<open>
  \<open>btoa\<close> takes a binary string (every code unit at most 255, else it raises
  InvalidCharacterError) and returns its base64 text with padding.
\<close>

fun base64_encode :: "nat list \<Rightarrow> jsstring" where
  "base64_encode [] = []"
| "base64_encode [a] =
     [base64chars ! (a div 4), base64chars ! ((a mod 4) * 16), 0x3D, 0x3D]"
| "base64_encode [a, b] =
     [base64chars ! (a div 4), base64chars ! ((a mod 4) * 16 + b div 16),
      base64chars ! ((b mod 16) * 4), 0x3D]"
| "base64_encode (a # b # c # r) =
     [base64chars ! (a div 4), base64chars ! ((a mod 4) * 16 + b div 16),
      base64chars ! ((b mod 16) * 4 + c div 64), base64chars ! (c mod 64)] @ base64_encode r"

definition btoa :: "jsstring \<Rightarrow> js_error + jsstring" where
  "btoa s =
     (if \<exists>c \<in> set s. c > 0xFF then Inl (Error ''InvalidCharacterError'')
      else Inr (base64_encode (map unat s)))"

text \<open>
  \<open>atob\<close> is the forgiving-base64 decode of the Infra Standard: ASCII whitespace is
  removed; if the length is then a multiple of 4, one or two trailing \<open>=\<close> are removed; a
  length of 1 modulo 4 or a character outside the alphabet is an InvalidCharacterError;
  every character gives 6 bits, and the 2 or 4 bits left over at the end are dropped.
\<close>

fun index_of :: "'a \<Rightarrow> 'a list \<Rightarrow> nat option" where
  "index_of x [] = None"
| "index_of x (y # ys) = (if x = y then Some 0 else map_option Suc (index_of x ys))"

definition is_ascii_whitespace :: "16 word \<Rightarrow> bool" where
  "is_ascii_whitespace c \<longleftrightarrow> c = 0x09 \<or> c = 0x0A \<or> c = 0x0C \<or> c = 0x0D \<or> c = 0x20"

definition strip_padding :: "jsstring \<Rightarrow> jsstring" where
  "strip_padding s =
     (if length s mod 4 = 0 \<and> s \<noteq> [] \<and> last s = 0x3D then
        (let s1 = butlast s in if s1 \<noteq> [] \<and> last s1 = 0x3D then butlast s1 else s1)
      else s)"

fun base64_sextets :: "jsstring \<Rightarrow> nat list option" where
  "base64_sextets [] = Some []"
| "base64_sextets (c # cs) =
     (case index_of c base64chars of
        None \<Rightarrow> None
      | Some n \<Rightarrow> map_option ((#) n) (base64_sextets cs))"

fun base64_bytes :: "nat list \<Rightarrow> nat list" where
  "base64_bytes (s0 # s1 # s2 # s3 # r) =
     [s0 * 4 + s1 div 16, (s1 mod 16) * 16 + s2 div 4, (s2 mod 4) * 64 + s3] @ base64_bytes r"
| "base64_bytes [s0, s1, s2] = [s0 * 4 + s1 div 16, (s1 mod 16) * 16 + s2 div 4]"
| "base64_bytes [s0, s1] = [s0 * 4 + s1 div 16]"
| "base64_bytes _ = []"

definition atob :: "jsstring \<Rightarrow> js_error + jsstring" where
  "atob s =
     (let d = strip_padding (filter (\<lambda>c. \<not> is_ascii_whitespace c) s)
      in if length d mod 4 = 1 then Inl (Error ''InvalidCharacterError'')
         else (case base64_sextets d of
                 None \<Rightarrow> Inl (Error ''InvalidCharacterError'')
               | Some ss \<Rightarrow> Inr (map of_nat (base64_bytes ss))))"

text \<open>
  The fallback encoder that \<open>encryptData\<close> runs when \<open>btoa\<close> or the spread call
  raises. JavaScript's bitwise operators work on 32-bit integers; \<open>>>\<close> is the
  sign-propagating shift. \<open>combined[i + 1] || 0\<close> is 0 past the end of the array.
\<close>

definition bitmap_of :: "byte \<Rightarrow> byte \<Rightarrow> byte \<Rightarrow> 32 word" where
  "bitmap_of a b c = push_bit 16 (ucast a) OR push_bit 8 (ucast b) OR ucast c"

definition charAt :: "jsstring \<Rightarrow> 32 word \<Rightarrow> jsstring" where
  "charAt s i = (if unat i < length s then [s ! unat i] else [])"

fun base64_fallback :: "byte list \<Rightarrow> jsstring" where
  "base64_fallback [] = []"
| "base64_fallback [a] =
     (let bitmap = bitmap_of a 0 0
      in charAt base64chars (signed_drop_bit 18 bitmap AND 63) @
         charAt base64chars (signed_drop_bit 12 bitmap AND 63) @ str ''='' @ str ''='')"
| "base64_fallback [a, b] =
     (let bitmap = bitmap_of a b 0
      in charAt base64chars (signed_drop_bit 18 bitmap AND 63) @
         charAt base64chars (signed_drop_bit 12 bitmap AND 63) @
         charAt base64chars (signed_drop_bit 6 bitmap AND 63) @ str ''='')"
| "base64_fallback (a # b # c # r) =
     (let bitmap = bitmap_of a b c
      in charAt base64chars (signed_drop_bit 18 bitmap AND 63) @
         charAt base64chars (signed_drop_bit 12 bitmap AND 63) @
         charAt base64chars (signed_drop_bit 6 bitmap AND 63) @
         charAt base64chars (bitmap AND 63) @ base64_fallback r)"

section \<open>Platform\<close>

text \<open>
  What the program takes from its platform and this development does not define: the Web
  Crypto primitives, the argument limit of a spread call, and JSON. \<open>PBKDF2\<close> is
  \<open>importKey\<close> and \<open>deriveBits\<close> with the given password bytes, salt and iteration count
  (SHA-256, 256 bits); \<open>AES_GCM_encrypt key iv data\<close> and \<open>AES_GCM_decrypt key iv data\<close> are
  \<open>encrypt\<close> and \<open>decrypt\<close> under the imported key. \<open>JSON_parse\<close> gives what the source
  reads of the parsed value: \<open>JNull\<close> when reading \<open>.entries\<close> raises a TypeError, else
  the value of the \<open>entries\<close> property, if it has one.
\<close>

record VaultData =
  vd_entries :: "PasswordEntry list"
  lastModified :: jsstring
  version :: jsstring

datatype parsed_json = JNull | JValue "PasswordEntry list option"

record platform =
  subtle_available :: bool
  PBKDF2 :: "byte list \<Rightarrow> byte list \<Rightarrow> nat \<Rightarrow> js_error + byte list"
  AES_GCM_encrypt :: "byte list \<Rightarrow> byte list \<Rightarrow> byte list \<Rightarrow> js_error + byte list"
  AES_GCM_decrypt :: "byte list \<Rightarrow> byte list \<Rightarrow> byte list \<Rightarrow> js_error + byte list"
  spread_limit :: nat
  JSON_stringify :: "VaultData \<Rightarrow> jsstring"
  JSON_parse :: "jsstring \<Rightarrow> js_error + parsed_json"

section \<open>CryptoUtils (crypto.ts)\<close>

definition SALT_LENGTH :: nat where "SALT_LENGTH = 32"
definition KEY_LENGTH :: nat where "KEY_LENGTH = 32"
definition IV_LENGTH :: nat where "IV_LENGTH = 12"
definition TAG_LENGTH :: nat where "TAG_LENGTH = 16"

definition deriveKey :: "platform \<Rightarrow> jsstring \<Rightarrow> byte list \<Rightarrow> js_error + byte list" where
  "deriveKey P pw salt =
     (if \<not> subtle_available P then Inl (Error ''Web Crypto API not available on this platform'')
      else PBKDF2 P (TextEncoder_encode pw) salt 600000)"

text \<open>\<open>String.fromCharCode(...bytes)\<close>: a call with one argument for every byte.\<close>

definition fromCharCode_spread :: "platform \<Rightarrow> byte list \<Rightarrow> js_error + jsstring" where
  "fromCharCode_spread P bytes =
     (if length bytes > spread_limit P then Inl (Error ''RangeError: too many arguments'')
      else Inr (map ucast bytes))"

text \<open>The chunks \<open>combined.slice(i, i + n)\<close> for \<open>i = 0, n, 2n, ...\<close> below the length.\<close>

function slices :: "nat \<Rightarrow> 'a list \<Rightarrow> 'a list list" where
  "slices n xs = (if n = 0 \<or> xs = [] then [] else take n xs # slices n (drop n xs))"
  by pat_completeness auto
termination
  by (relation "measure (\<lambda>(n, xs). length xs)") auto

declare slices.simps [simp del]

fun spread_chunks :: "platform \<Rightarrow> byte list list \<Rightarrow> js_error + jsstring list" where
  "spread_chunks P [] = Inr []"
| "spread_chunks P (chunk # rest) =
     (case fromCharCode_spread P chunk of
        Inl e \<Rightarrow> Inl e
      | Inr s \<Rightarrow> (case spread_chunks P rest of Inl e \<Rightarrow> Inl e | Inr ss \<Rightarrow> Inr (s # ss)))"

text \<open>The \<open>try\<close> block that encodes \<open>combined\<close>, with its \<open>catch\<close>.\<close>

definition encode_combined :: "platform \<Rightarrow> byte list \<Rightarrow> jsstring" where
  "encode_combined P combined =
     (case (if length combined > 65536 then
              (case spread_chunks P (slices 65536 combined) of
                 Inl e \<Rightarrow> Inl e
               | Inr chunks \<Rightarrow> btoa (concat chunks))
            else
              (case fromCharCode_spread P combined of Inl e \<Rightarrow> Inl e | Inr s \<Rightarrow> btoa s)) of
        Inl btoaError \<Rightarrow> base64_fallback combined
      | Inr result \<Rightarrow> result)"

definition encryptData ::
    "platform \<Rightarrow> random_source \<Rightarrow> jsstring \<Rightarrow> jsstring \<Rightarrow> (js_error + jsstring) \<times> random_source" where
  "encryptData P rng dat pw =
     (let dataBuffer = TextEncoder_encode dat
      in case getRandomValues rng SALT_LENGTH of
           (Inl e, rng1) \<Rightarrow> (Inl e, rng1)
         | (Inr salt, rng1) \<Rightarrow>
             (case getRandomValues rng1 IV_LENGTH of
                (Inl e, rng2) \<Rightarrow> (Inl e, rng2)
              | (Inr iv, rng2) \<Rightarrow>
                  (case deriveKey P pw salt of
                     Inl e \<Rightarrow> (Inl e, rng2)
                   | Inr key \<Rightarrow>
                       (case AES_GCM_encrypt P key iv dataBuffer of
                          Inl e \<Rightarrow> (Inl e, rng2)
                        | Inr encryptedData \<Rightarrow>
                            (Inr (encode_combined P (salt @ iv @ encryptedData)), rng2)))))"

definition decryption_failed :: js_error where
  "decryption_failed = Error ''Decryption failed - invalid password or corrupted data''"

definition decryptData :: "platform \<Rightarrow> jsstring \<Rightarrow> jsstring \<Rightarrow> js_error + jsstring" where
  "decryptData P encryptedData pw =
     (case atob encryptedData of
        Inl e \<Rightarrow> Inl decryption_failed
      | Inr bin \<Rightarrow>
          (let combined = map ucast bin :: byte list;
               salt = take SALT_LENGTH combined;
               iv = take IV_LENGTH (drop SALT_LENGTH combined);
               encrypted = drop (SALT_LENGTH + IV_LENGTH) combined
           in case deriveKey P pw salt of
                Inl e \<Rightarrow> Inl decryption_failed
              | Inr key \<Rightarrow>
                  (case AES_GCM_decrypt P key iv encrypted of
                     Inl e \<Rightarrow> Inl decryption_failed
                   | Inr decryptedBuffer \<Rightarrow> Inr (TextDecoder_decode decryptedBuffer))))"

section \<open>Password generator (CryptoUtils.generateSecurePassword)\<close>

record generated =
  gen_password :: jsstring
  entropy :: real

definition lowercase_chars :: jsstring where
  "lowercase_chars = str ''abcdefghijklmnopqrstuvwxyz''"

definition uppercase_chars :: jsstring where
  "uppercase_chars = str ''ABCDEFGHIJKLMNOPQRSTUVWXYZ''"

definition number_chars :: jsstring where
  "number_chars = str ''0123456789''"

definition symbol_chars :: jsstring where
  "symbol_chars = str ''!@#$%^&*()_+-=[]{}|;:,.<>?''"

text \<open>
  The four \<open>if\<close> statements that build \<open>charset\<close> and \<open>charsetSize\<close>, in the order of
  the source.
\<close>

definition build_charset :: "bool \<Rightarrow> bool \<Rightarrow> bool \<Rightarrow> bool \<Rightarrow> jsstring \<times> nat" where
  "build_charset includeSymbols includeNumbers includeUppercase includeLowercase =
     (let (charset, charsetSize) = ([], 0);
          (charset, charsetSize) =
             (if includeLowercase then (charset @ lowercase_chars, charsetSize + 26)
              else (charset, charsetSize));
          (charset, charsetSize) =
             (if includeUppercase then (charset @ uppercase_chars, charsetSize + 26)
              else (charset, charsetSize));
          (charset, charsetSize) =
             (if includeNumbers then (charset @ number_chars, charsetSize + 10)
              else (charset, charsetSize));
          (charset, charsetSize) =
             (if includeSymbols then (charset @ symbol_chars, charsetSize + 27)
              else (charset, charsetSize))
      in (charset, charsetSize))"

text \<open>
  \<open>length\<close> is an integer: both callers pass the result of \<open>parseInt\<close>.
  \<open>new Uint8Array(length)\<close> raises a RangeError on a negative length. The entropy is the
  real number \<open>length * log2(charsetSize)\<close>, of which the source computes the
  double-precision approximation.
\<close>

definition generateSecurePassword ::
    "random_source \<Rightarrow> int \<Rightarrow> bool \<Rightarrow> bool \<Rightarrow> bool \<Rightarrow> bool \<Rightarrow> (js_error + generated) \<times> random_source" where
  "generateSecurePassword rng len includeSymbols includeNumbers includeUppercase includeLowercase =
     (let (charset, charsetSize) =
            build_charset includeSymbols includeNumbers includeUppercase includeLowercase
      in if charset = [] then
           (Inl (Error ''At least one character type must be selected''), rng)
         else if len < 0 then (Inl (Error ''RangeError: Invalid typed array length''), rng)
         else
           (case getRandomValues rng (nat len) of
              (Inl e, rng') \<Rightarrow> (Inl e, rng')
            | (Inr array, rng') \<Rightarrow>
                (Inr \<lparr>gen_password = map (\<lambda>b. charset ! (unat b mod length charset)) array,
                      entropy = real_of_int len * log 2 (real charsetSize)\<rparr>, rng')))"

section \<open>Secure key-value store (expo-secure-store)\<close>

text \<open>
  The store is a map from keys to values. A call on a key may be rejected by the platform
  (the store is unavailable, or it refuses the key): \<open>rejects\<close> gives the error then.
\<close>

record SecureStore =
  items :: "jsstring \<rightharpoonup> jsstring"
  rejects :: "jsstring \<Rightarrow> js_error option"

definition getItemAsync :: "SecureStore \<Rightarrow> jsstring \<Rightarrow> js_error + jsstring option" where
  "getItemAsync st k = (case rejects st k of Some e \<Rightarrow> Inl e | None \<Rightarrow> Inr (items st k))"

definition setItemAsync :: "SecureStore \<Rightarrow> jsstring \<Rightarrow> jsstring \<Rightarrow> js_error + SecureStore" where
  "setItemAsync st k v =
     (case rejects st k of Some e \<Rightarrow> Inl e | None \<Rightarrow> Inr (st\<lparr>items := (items st)(k \<mapsto> v)\<rparr>))"

definition deleteItemAsync :: "SecureStore \<Rightarrow> jsstring \<Rightarrow> js_error + SecureStore" where
  "deleteItemAsync st k =
     (case rejects st k of Some e \<Rightarrow> Inl e | None \<Rightarrow> Inr (st\<lparr>items := (items st)(k := None)\<rparr>))"

section \<open>SecureStorage (storage.ts)\<close>

definition VAULT_PREFIX :: jsstring where
  "VAULT_PREFIX = str ''password_manager_vault_''"

definition CURRENT_USER_KEY :: jsstring where
  "CURRENT_USER_KEY = str ''password_manager_current_user''"

text \<open>\<open>now\<close> is the value of \<open>new Date().toISOString()\<close>.\<close>

definition storeEncryptedVault ::
    "platform \<Rightarrow> jsstring \<Rightarrow> random_source \<Rightarrow> SecureStore \<Rightarrow> jsstring \<Rightarrow> PasswordEntry list \<Rightarrow> jsstring
      \<Rightarrow> (js_error + unit) \<times> SecureStore \<times> random_source" where
  "storeEncryptedVault P now rng st user es mp =
     (let vaultData = \<lparr>vd_entries = es, lastModified = now, version = str ''1.0''\<rparr>;
          serialized = JSON_stringify P vaultData
      in case encryptData P rng serialized mp of
           (Inl e, rng') \<Rightarrow>
             (Inl (Error (''Failed to store encrypted vault: '' @ message e)), st, rng')
         | (Inr encrypted, rng') \<Rightarrow>
             (case setItemAsync st (VAULT_PREFIX @ user) encrypted of
                Inl e \<Rightarrow> (Inl (Error (''Failed to store encrypted vault: '' @ message e)), st, rng')
              | Inr st' \<Rightarrow> (Inr (), st', rng')))"

text \<open>The \<open>catch\<close> of \<open>getEncryptedVault\<close>.\<close>

definition vault_error :: "js_error \<Rightarrow> js_error" where
  "vault_error e =
     (if message_includes (message e) ''Decryption failed'' then Error ''Invalid master password''
      else Error ''Failed to retrieve vault data'')"

definition getEncryptedVault ::
    "platform \<Rightarrow> SecureStore \<Rightarrow> jsstring \<Rightarrow> jsstring \<Rightarrow> js_error + PasswordEntry list" where
  "getEncryptedVault P st user mp =
     (case getItemAsync st (VAULT_PREFIX @ user) of
        Inl e \<Rightarrow> Inl (vault_error e)
      | Inr None \<Rightarrow> Inr []
      | Inr (Some encrypted) \<Rightarrow>
          (if encrypted = [] then Inr []
           else
             (case decryptData P encrypted mp of
                Inl e \<Rightarrow> Inl (vault_error e)
              | Inr decrypted \<Rightarrow>
                  (case JSON_parse P decrypted of
                     Inl e \<Rightarrow> Inl (vault_error e)
                   | Inr JNull \<Rightarrow>
                       Inl (vault_error (Error ''TypeError: Cannot read properties of null''))
                   | Inr (JValue None) \<Rightarrow> Inr []
                   | Inr (JValue (Some es)) \<Rightarrow> Inr es))))"

definition clearCurrentUser :: "SecureStore \<Rightarrow> SecureStore" where
  "clearCurrentUser st =
     (case deleteItemAsync st CURRENT_USER_KEY of Inl e \<Rightarrow> st | Inr st' \<Rightarrow> st')"

section \<open>Vault state machine (VaultContext)\<close>

datatype VaultAction =
    UNLOCK_VAULT "PasswordEntry list" jsstring
  | LOCK_VAULT
  | SET_ENTRIES "PasswordEntry list"
  | ADD_ENTRY PasswordEntry
  | UPDATE_ENTRY jsstring PartialEntry
  | DELETE_ENTRY jsstring

text \<open>
  \<open>{ ...entry, ...updates, updatedAt: now }\<close>: a field present in \<open>updates\<close> replaces the
  entry's, and \<open>updatedAt\<close> is set last.
\<close>

definition spread_update :: "PasswordEntry \<Rightarrow> PartialEntry \<Rightarrow> jsstring \<Rightarrow> PasswordEntry" where
  "spread_update entry updates now =
     \<lparr>entry_id = (case p_id updates of None \<Rightarrow> entry_id entry | Some v \<Rightarrow> v),
      site = (case p_site updates of None \<Rightarrow> site entry | Some v \<Rightarrow> v),
      username = (case p_username updates of None \<Rightarrow> username entry | Some v \<Rightarrow> v),
      password = (case p_password updates of None \<Rightarrow> password entry | Some v \<Rightarrow> v),
      createdAt = (case p_createdAt updates of None \<Rightarrow> createdAt entry | Some v \<Rightarrow> v),
      updatedAt = now\<rparr>"

text \<open>
  The reducer. \<open>now\<close> is the value of \<open>new Date().toISOString()\<close> at the time of the
  call (only \<open>UPDATE_ENTRY\<close> reads it).
\<close>

fun vaultReducer :: "jsstring \<Rightarrow> VaultState \<Rightarrow> VaultAction \<Rightarrow> VaultState" where
  "vaultReducer now state (UNLOCK_VAULT es mp) =
     state\<lparr>entries := es, isLocked := False, masterPassword := Some mp\<rparr>"
| "vaultReducer now state LOCK_VAULT =
     \<lparr>entries = [], isLocked = True, masterPassword = None\<rparr>"
| "vaultReducer now state (SET_ENTRIES es) = state\<lparr>entries := es\<rparr>"
| "vaultReducer now state (ADD_ENTRY e) = state\<lparr>entries := entries state @ [e]\<rparr>"
| "vaultReducer now state (UPDATE_ENTRY i updates) =
     state\<lparr>entries := map (\<lambda>entry. if entry_id entry = i then spread_update entry updates now else entry)
                            (entries state)\<rparr>"
| "vaultReducer now state (DELETE_ENTRY i) =
     state\<lparr>entries := filter (\<lambda>entry. entry_id entry \<noteq> i) (entries state)\<rparr>"

definition initialState :: VaultState where
  "initialState = \<lparr>entries = [], isLocked = True, masterPassword = None\<rparr>"

text \<open>
  The world the provider's operations act on: the reducer's state, the state of
  \<open>AuthContext\<close>, the store, the random source, and the identifiers that
  \<open>SecureStorage.generateUniqueId\<close> will return, in order.
\<close>

record world =
  vault :: VaultState
  auth :: AuthState
  secure_store :: SecureStore
  random :: random_source
  unique_ids :: "nat \<Rightarrow> jsstring"

definition dispatch :: "jsstring \<Rightarrow> VaultAction \<Rightarrow> world \<Rightarrow> world" where
  "dispatch now a w = w\<lparr>vault := vaultReducer now (vault w) a\<rparr>"

text \<open>
  An operation of the provider is a closure over the \<open>state\<close> and \<open>authState\<close> of the
  render that created it: \<open>dispatch\<close> changes the reducer's state, and what the
  operation reads after it (in \<open>saveVault\<close>) is still the \<open>state\<close> it was created with.
  \<open>caller\<close> is the world at the time of the call, which holds that state;
  \<open>now\<close> is the value of \<open>new Date().toISOString()\<close> during the operation.
\<close>

definition saveVault ::
    "platform \<Rightarrow> jsstring \<Rightarrow> world \<Rightarrow> world \<Rightarrow> (js_error + unit) \<times> world" where
  "saveVault P now caller w =
     (case currentUser (auth caller) of
        None \<Rightarrow> (Inl (Error ''No user logged in''), w)
      | Some user \<Rightarrow>
          (case masterPassword (vault caller) of
             None \<Rightarrow> (Inl (Error ''Vault is locked''), w)
           | Some mp \<Rightarrow>
               (if mp = [] then (Inl (Error ''Vault is locked''), w)
                else
                  (case storeEncryptedVault P now (random w) (secure_store w)
                          (user_username user) (entries (vault caller)) mp of
                     (r, st', rng') \<Rightarrow> (r, w\<lparr>secure_store := st', random := rng'\<rparr>)))))"

definition unlockVault :: "platform \<Rightarrow> jsstring \<Rightarrow> world \<Rightarrow> jsstring \<Rightarrow> (js_error + unit) \<times> world" where
  "unlockVault P now w mp =
     (case currentUser (auth w) of
        None \<Rightarrow> (Inl (Error ''No user logged in''), w)
      | Some user \<Rightarrow>
          (case getEncryptedVault P (secure_store w) (user_username user) mp of
             Inl e \<Rightarrow> (Inl e, w)
           | Inr es \<Rightarrow> (Inr (), dispatch now (UNLOCK_VAULT es mp) w)))"

definition lockVault :: "jsstring \<Rightarrow> world \<Rightarrow> world" where
  "lockVault now w = dispatch now LOCK_VAULT w"

text \<open>\<open>Omit<PasswordEntry, 'id' | 'createdAt' | 'updatedAt'>\<close>\<close>

record EntryData =
  ed_site :: jsstring
  ed_username :: jsstring
  ed_password :: jsstring

definition generateUniqueId :: "world \<Rightarrow> jsstring \<times> world" where
  "generateUniqueId w = (unique_ids w 0, w\<lparr>unique_ids := (\<lambda>i. unique_ids w (i + 1))\<rparr>)"

definition addEntry :: "platform \<Rightarrow> jsstring \<Rightarrow> world \<Rightarrow> EntryData \<Rightarrow> (js_error + unit) \<times> world" where
  "addEntry P now w entryData =
     (case generateUniqueId w of
        (new_id, w1) \<Rightarrow>
          (let newEntry = \<lparr>entry_id = new_id, site = ed_site entryData,
                           username = ed_username entryData, password = ed_password entryData,
                           createdAt = now, updatedAt = now\<rparr>
           in saveVault P now w (dispatch now (ADD_ENTRY newEntry) w1)))"

definition updateEntry ::
    "platform \<Rightarrow> jsstring \<Rightarrow> world \<Rightarrow> jsstring \<Rightarrow> PartialEntry \<Rightarrow> (js_error + unit) \<times> world" where
  "updateEntry P now w i updates = saveVault P now w (dispatch now (UPDATE_ENTRY i updates) w)"

definition deleteEntry :: "platform \<Rightarrow> jsstring \<Rightarrow> world \<Rightarrow> jsstring \<Rightarrow> (js_error + unit) \<times> world" where
  "deleteEntry P now w i = saveVault P now w (dispatch now (DELETE_ENTRY i) w)"

definition changeMasterPassword ::
    "platform \<Rightarrow> jsstring \<Rightarrow> world \<Rightarrow> jsstring \<Rightarrow> jsstring \<Rightarrow> (js_error + unit) \<times> world" where
  "changeMasterPassword P now w oldPassword newPassword =
     (case currentUser (auth w) of
        None \<Rightarrow> (Inl (Error ''Invalid current master password''), w)
      | Some user \<Rightarrow>
          (if masterPassword (vault w) \<noteq> Some oldPassword then
             (Inl (Error ''Invalid current master password''), w)
           else
             (case storeEncryptedVault P now (random w) (secure_store w) (user_username user)
                     (entries (vault w)) newPassword of
                (Inl e, st', rng') \<Rightarrow> (Inl e, w\<lparr>secure_store := st', random := rng'\<rparr>)
              | (Inr u, st', rng') \<Rightarrow>
                  (Inr (), dispatch now (UNLOCK_VAULT (entries (vault w)) newPassword)
                             (w\<lparr>secure_store := st', random := rng'\<rparr>)))))"

text \<open>\<open>logout\<close> of the authentication context: the errors of the store are ignored.\<close>

definition logout :: "world \<Rightarrow> world" where
  "logout w =
     w\<lparr>secure_store := clearCurrentUser (secure_store w),
       auth := (auth w)\<lparr>currentUser := None, isLoggedIn := False, isLoading := False\<rparr>\<rparr>"

section \<open>Screens that call the generator\<close>

text \<open>
  \<open>parseInt(s)\<close> with no radix: leading white space is skipped, a sign is read, a prefix
  \<open>0x\<close> selects base 16, and the longest run of digits of the base is the value; no digit
  gives \<open>NaN\<close> (here \<open>None\<close>). The result is the exact integer, which the platform rounds
  to a double above \<open>2^53\<close>.
\<close>

definition StrWhiteSpaceChar :: "16 word \<Rightarrow> bool" where
  "StrWhiteSpaceChar c \<longleftrightarrow>
     c \<in> {0x09, 0x0A, 0x0B, 0x0C, 0x0D, 0x20, 0xA0, 0x1680, 0x2028, 0x2029, 0x202F, 0x205F,
          0x3000, 0xFEFF} \<or> (0x2000 \<le> c \<and> c \<le> 0x200A)"

definition digit_value :: "16 word \<Rightarrow> nat" where
  "digit_value c =
     (if 0x30 \<le> c \<and> c \<le> 0x39 then unat c - 0x30
      else if 0x61 \<le> c \<and> c \<le> 0x7A then unat c - 0x61 + 10
      else if 0x41 \<le> c \<and> c \<le> 0x5A then unat c - 0x41 + 10
      else 36)"

definition parseInt :: "jsstring \<Rightarrow> int option" where
  "parseInt s =
     (let s1 = dropWhile StrWhiteSpaceChar s;
          (sign, s2) = (case s1 of
                          [] \<Rightarrow> (1, s1)
                        | c # r \<Rightarrow> if c = 0x2D then (- 1, r) else if c = 0x2B then (1, r) else (1, s1));
          (radix, s3) = (case s2 of
                           a # b # r \<Rightarrow> if a = 0x30 \<and> (b = 0x78 \<or> b = 0x58) then (16, r) else (10, s2)
                         | _ \<Rightarrow> (10, s2));
          digits = takeWhile (\<lambda>c. digit_value c < radix) s3
      in if digits = [] then None
         else Some (sign * int (foldl (\<lambda>acc c. acc * radix + digit_value c) 0 digits)))"

datatype alert = Alert (alert_title: string) (alert_message: string) | PasswordGeneratedAlert real

record GeneratorSettings =
  lengthText :: jsstring
  includeSymbols :: bool
  includeNumbers :: bool
  includeUppercase :: bool
  includeLowercase :: bool

text \<open>
  \<open>generatePassword\<close> of AddEntryScreen. The result is the new value of the screen's
  \<open>password\<close> (\<open>None\<close>: \<open>setPassword\<close> was not called), the alert shown, and the
  random source.
\<close>

definition AddEntryScreen_generatePassword ::
    "random_source \<Rightarrow> GeneratorSettings \<Rightarrow> jsstring option \<times> alert \<times> random_source" where
  "AddEntryScreen_generatePassword rng g =
     (case parseInt (lengthText g) of
        None \<Rightarrow> (None, Alert ''Error'' ''Password length must be between 8 and 128 characters'', rng)
      | Some len \<Rightarrow>
          (if len < 8 \<or> len > 128 then
             (None, Alert ''Error'' ''Password length must be between 8 and 128 characters'', rng)
           else if \<not> includeSymbols g \<and> \<not> includeNumbers g \<and> \<not> includeUppercase g \<and>
                   \<not> includeLowercase g then
             (None, Alert ''Error'' ''At least one character type must be selected'', rng)
           else
             (case generateSecurePassword rng len (includeSymbols g) (includeNumbers g)
                     (includeUppercase g) (includeLowercase g) of
                (Inl e, rng') \<Rightarrow> (None, Alert ''Error'' ''Failed to generate password'', rng')
              | (Inr result, rng') \<Rightarrow>
                  (Some (gen_password result), PasswordGeneratedAlert (entropy result), rng'))))"

text \<open>\<open>validateSettings\<close> and \<open>generatePassword\<close> of PasswordGeneratorScreen.\<close>

definition validateSettings :: "GeneratorSettings \<Rightarrow> string option" where
  "validateSettings g =
     (case parseInt (lengthText g) of
        None \<Rightarrow> Some ''Password length must be between 4 and 128 characters''
      | Some lengthNum \<Rightarrow>
          (if lengthNum < 4 \<or> lengthNum > 128 then
             Some ''Password length must be between 4 and 128 characters''
           else if \<not> includeSymbols g \<and> \<not> includeNumbers g \<and> \<not> includeUppercase g \<and>
                   \<not> includeLowercase g then
             Some ''At least one character type must be selected''
           else None))"

definition PasswordGeneratorScreen_generatePassword ::
    "random_source \<Rightarrow> GeneratorSettings \<Rightarrow> (jsstring \<times> real) option \<times> alert option \<times> random_source" where
  "PasswordGeneratorScreen_generatePassword rng g =
     (case validateSettings g of
        Some validationError \<Rightarrow> (None, Some (Alert ''Invalid Settings'' validationError), rng)
      | None \<Rightarrow>
          (case parseInt (lengthText g) of
             None \<Rightarrow> (None, Some (Alert ''Error'' ''Failed to generate password''), rng)
           | Some lengthNum \<Rightarrow>
               (case generateSecurePassword rng lengthNum (includeSymbols g) (includeNumbers g)
                       (includeUppercase g) (includeLowercase g) of
                  (Inl e, rng') \<Rightarrow> (None, Some (Alert ''Error'' ''Failed to generate password''), rng')
                | (Inr result, rng') \<Rightarrow>
                    (Some (gen_password result, entropy result), None, rng'))))"

section \<open>UnlockScreen\<close>

text \<open>
  The dialogs the screen opens with \<open>Alert.alert\<close>, and their buttons:
  \<^item> \<open>EnterPassword\<close>: 'Error', 'Please enter your master password';
  \<^item> \<open>IncorrectPassword n\<close>: 'Incorrect Password', 'Invalid master password. n attempts
    remaining.';
  \<^item> \<open>TooManyFailedAttempts\<close>: 'Too Many Failed Attempts', 'For security reasons, you will
    be logged out.', with the button OK, whose \<open>onPress\<close> is \<open>handleLogout\<close>;
  \<^item> \<open>LogoutConfirm\<close>: 'Logout', 'Are you sure you want to logout?', with the buttons
    Cancel (no handler) and Logout (\<open>logout()\<close>, then \<open>navigation.replace('Login')\<close>).
\<close>

datatype Dialog = EnterPassword | IncorrectPassword int | TooManyFailedAttempts | LogoutConfirm

datatype Button = ButtonOK | ButtonCancel | ButtonLogout

datatype Route = LoginRoute | UnlockRoute | VaultRoute

record UnlockScreen =
  us_masterPassword :: jsstring
  us_isUnlocking :: bool
  us_attempts :: int

text \<open>
  The application while the unlock screen is mounted: the world, the route of the
  navigator, the screen's \<open>useState\<close> values and the dialogs that are open, oldest first.
\<close>

record app =
  app_world :: world
  route :: Route
  screen :: UnlockScreen
  dialogs :: "Dialog list"

text \<open>A screen that is mounted starts from the initial values of its \<open>useState\<close> calls.\<close>

definition mount_UnlockScreen :: UnlockScreen where
  "mount_UnlockScreen = \<lparr>us_masterPassword = [], us_isUnlocking = False, us_attempts = 0\<rparr>"

definition navigation_replace :: "Route \<Rightarrow> app \<Rightarrow> app" where
  "navigation_replace r a = a\<lparr>route := r, screen := mount_UnlockScreen\<rparr>"

definition handleLogout :: "app \<Rightarrow> app" where
  "handleLogout a = a\<lparr>dialogs := dialogs a @ [LogoutConfirm]\<rparr>"

text \<open>\<open>!masterPassword.trim()\<close>: the text is empty or all white space.\<close>

definition blank :: "jsstring \<Rightarrow> bool" where
  "blank s = list_all StrWhiteSpaceChar s"

definition handleUnlock :: "platform \<Rightarrow> jsstring \<Rightarrow> app \<Rightarrow> app" where
  "handleUnlock P now a =
     (if blank (us_masterPassword (screen a)) then a\<lparr>dialogs := dialogs a @ [EnterPassword]\<rparr>
      else
        (case unlockVault P now (app_world a) (us_masterPassword (screen a)) of
           (Inr u, w') \<Rightarrow> navigation_replace VaultRoute (a\<lparr>app_world := w'\<rparr>)
         | (Inl e, w') \<Rightarrow>
             (let newAttempts = us_attempts (screen a) + 1
              in a\<lparr>app_world := w',
                   screen := (screen a)\<lparr>us_attempts := newAttempts, us_masterPassword := [],
                                         us_isUnlocking := False\<rparr>,
                   dialogs := dialogs a @
                     [if newAttempts \<ge> 3 then TooManyFailedAttempts
                      else IncorrectPassword (3 - newAttempts)]\<rparr>)))"

text \<open>Pressing a button of the oldest open dialog closes it and runs the button's handler.\<close>

fun is_plain_dialog :: "Dialog \<Rightarrow> bool" where
  "is_plain_dialog EnterPassword = True"
| "is_plain_dialog (IncorrectPassword n) = True"
| "is_plain_dialog d = False"

definition press :: "Button \<Rightarrow> app \<Rightarrow> app" where
  "press b a =
     (case dialogs a of
        [] \<Rightarrow> a
      | d # ds \<Rightarrow>
          (if d = TooManyFailedAttempts \<and> b = ButtonOK then handleLogout (a\<lparr>dialogs := ds\<rparr>)
           else if d = LogoutConfirm \<and> b = ButtonCancel then a\<lparr>dialogs := ds\<rparr>
           else if d = LogoutConfirm \<and> b = ButtonLogout then
             navigation_replace LoginRoute (a\<lparr>dialogs := ds, app_world := logout (app_world a)\<rparr>)
           else if is_plain_dialog d \<and> b = ButtonOK then a\<lparr>dialogs := ds\<rparr>
           else a))"

datatype Event = TypePassword jsstring | PressUnlock | PressButton Button | PressLogout

fun step :: "platform \<Rightarrow> jsstring \<Rightarrow> app \<Rightarrow> Event \<Rightarrow> app" where
  "step P now a (TypePassword s) = a\<lparr>screen := (screen a)\<lparr>us_masterPassword := s\<rparr>\<rparr>"
| "step P now a PressUnlock = handleUnlock P now a"
| "step P now a (PressButton b) = press b a"
| "step P now a PressLogout = handleLogout a"

definition run :: "platform \<Rightarrow> jsstring \<Rightarrow> app \<Rightarrow> Event list \<Rightarrow> app" where
  "run P now a evs = foldl (step P now) a evs"

section \<open>Predicates of the claims\<close>

definition no_class_selected :: "GeneratorSettings \<Rightarrow> bool" where
  "no_class_selected g \<longleftrightarrow>
     \<not> includeSymbols g \<and> \<not> includeNumbers g \<and> \<not> includeUppercase g \<and> \<not> includeLowercase g"

text \<open>The length typed is not a number, or it lies outside \<open>lo..hi\<close>.\<close>

definition length_outside :: "int \<Rightarrow> int \<Rightarrow> GeneratorSettings \<Rightarrow> bool" where
  "length_outside lo hi g =
     (case parseInt (lengthText g) of None \<Rightarrow> True | Some n \<Rightarrow> n < lo \<or> hi < n)"

text \<open>
  The state invariant of the vault: fully locked (no master secret, no entries) or
  unlocked with the master secret present.
\<close>

definition fully_locked :: "VaultState \<Rightarrow> bool" where
  "fully_locked s \<longleftrightarrow> isLocked s \<and> masterPassword s = None \<and> entries s = []"

definition fully_unlocked :: "VaultState \<Rightarrow> bool" where
  "fully_unlocked s \<longleftrightarrow> \<not> isLocked s \<and> masterPassword s \<noteq> None"

definition vault_invariant :: "VaultState \<Rightarrow> bool" where
  "vault_invariant s \<longleftrightarrow> fully_locked s \<or> fully_unlocked s"

text \<open>A Unicode scalar value: a code point that is not a surrogate.\<close>

definition is_scalar :: "nat \<Rightarrow> bool" where
  "is_scalar cp \<longleftrightarrow> cp < 0x110000 \<and> \<not> (0xD800 \<le> cp \<and> cp \<le> 0xDFFF)"

text \<open>The text begins with the byte order mark U+FEFF.\<close>

definition starts_with_BOM :: "jsstring \<Rightarrow> bool" where
  "starts_with_BOM s = (case s of [] \<Rightarrow> False | c # r \<Rightarrow> c = 0xFEFF)"

text \<open>
  The functional correctness of the platform's cipher: what \<open>encrypt\<close> returns under a
  key and an iv, \<open>decrypt\<close> under the same key and iv gives back.
\<close>

definition decrypt_inverts_encrypt :: "platform \<Rightarrow> bool" where
  "decrypt_inverts_encrypt P \<longleftrightarrow>
     (\<forall>key iv pt ct. AES_GCM_encrypt P key iv pt = Inr ct \<longrightarrow> AES_GCM_decrypt P key iv ct = Inr pt)"

text \<open>
  What the claims assume of JSON on a container: \<open>JSON.stringify\<close> writes a well-formed
  text that does not begin with U+FEFF (a JSON text of an object begins with a brace), and
  \<open>JSON.parse\<close> of that text has the container's entries.
\<close>

definition json_round_trip :: "platform \<Rightarrow> VaultData \<Rightarrow> bool" where
  "json_round_trip P vd \<longleftrightarrow>
     isWellFormed (JSON_stringify P vd) \<and> \<not> starts_with_BOM (JSON_stringify P vd) \<and>
     JSON_parse P (JSON_stringify P vd) = Inr (JValue (Some (vd_entries vd)))"

text \<open>
  The authenticity of the cipher, idealised: what it sealed under one key, it rejects
  under every other key.
\<close>

definition wrong_key_rejected :: "platform \<Rightarrow> bool" where
  "wrong_key_rejected P \<longleftrightarrow>
     (\<forall>key key' iv pt ct. AES_GCM_encrypt P key iv pt = Inr ct \<longrightarrow> key' \<noteq> key \<longrightarrow>
        (\<exists>e. AES_GCM_decrypt P key' iv ct = Inl e))"

section \<open>Auxiliary functions of the proofs\<close>

text \<open>The 6-bit groups of a byte sequence, and the number of padding characters.\<close>

fun sextets_of :: "nat list \<Rightarrow> nat list" where
  "sextets_of [] = []"
| "sextets_of [a] = [a div 4, (a mod 4) * 16]"
| "sextets_of [a, b] = [a div 4, (a mod 4) * 16 + b div 16, (b mod 16) * 4]"
| "sextets_of (a # b # c # r) =
     [a div 4, (a mod 4) * 16 + b div 16, (b mod 16) * 4 + c div 64, c mod 64] @ sextets_of r"

fun padding_of :: "nat list \<Rightarrow> nat" where
  "padding_of [] = 0"
| "padding_of [a] = 2"
| "padding_of [a, b] = 1"
| "padding_of (a # b # c # r) = padding_of r"

section \<open>A reference platform for the examples\<close>

text \<open>
  A stand-in with the functional behaviour of the primitives, not their security: the
  key is the first 32 bytes of password, salt and zeros; the cipher takes 32-byte keys
  only, the ciphertext is the plaintext followed by the key as its tag, and decryption
  accepts exactly its own key. In place of JSON there is a length-prefixed text: a string
  is written as its length in unary (the character '#' repeated), a colon and its
  characters; a container as the number of its entries in unary and a colon, the six
  fields of every entry, \<open>lastModified\<close> and \<open>version\<close>. \<open>test_parse\<close> accepts exactly the
  texts that \<open>test_stringify\<close> writes. The platform serves to evaluate the operations on
  concrete inputs.
\<close>

definition test_PBKDF2 :: "byte list \<Rightarrow> byte list \<Rightarrow> nat \<Rightarrow> js_error + byte list" where
  "test_PBKDF2 pw salt iterations = Inr (take 32 (pw @ salt @ replicate 32 0))"

definition test_encrypt :: "byte list \<Rightarrow> byte list \<Rightarrow> byte list \<Rightarrow> js_error + byte list" where
  "test_encrypt key iv dat =
     (if length key = 32 then Inr (dat @ key) else Inl (Error ''OperationError''))"

definition test_decrypt :: "byte list \<Rightarrow> byte list \<Rightarrow> byte list \<Rightarrow> js_error + byte list" where
  "test_decrypt key iv dat =
     (if length key = 32 \<and> 32 \<le> length dat \<and> drop (length dat - 32) dat = key
      then Inr (take (length dat - 32) dat)
      else Inl (Error ''OperationError''))"

definition test_write_string :: "jsstring \<Rightarrow> jsstring" where
  "test_write_string s = replicate (length s) 0x23 @ 0x3A # s"

definition test_read_string :: "jsstring \<Rightarrow> jsstring \<times> jsstring" where
  "test_read_string xs =
     (let n = length (takeWhile (\<lambda>c. c = 0x23) xs)
      in (take n (drop (Suc n) xs), drop (Suc n + n) xs))"

definition test_write_entry :: "PasswordEntry \<Rightarrow> jsstring" where
  "test_write_entry e =
     test_write_string (entry_id e) @ test_write_string (site e) @
     test_write_string (username e) @ test_write_string (password e) @
     test_write_string (createdAt e) @ test_write_string (updatedAt e)"

definition test_read_entry :: "jsstring \<Rightarrow> PasswordEntry \<times> jsstring" where
  "test_read_entry xs =
     (case test_read_string xs of (a, r1) \<Rightarrow>
      case test_read_string r1 of (b, r2) \<Rightarrow>
      case test_read_string r2 of (c, r3) \<Rightarrow>
      case test_read_string r3 of (d, r4) \<Rightarrow>
      case test_read_string r4 of (e, r5) \<Rightarrow>
      case test_read_string r5 of (f, r6) \<Rightarrow>
        (\<lparr>entry_id = a, site = b, username = c, password = d, createdAt = e, updatedAt = f\<rparr>,
         r6))"

primrec test_read_entries :: "nat \<Rightarrow> jsstring \<Rightarrow> PasswordEntry list \<times> jsstring" where
  "test_read_entries 0 xs = ([], xs)"
| "test_read_entries (Suc n) xs =
     (case test_read_entry xs of (e, r) \<Rightarrow>
      case test_read_entries n r of (es, r') \<Rightarrow> (e # es, r'))"

definition test_stringify :: "VaultData \<Rightarrow> jsstring" where
  "test_stringify vd =
     replicate (length (vd_entries vd)) 0x23 @ 0x3A #
     concat (map test_write_entry (vd_entries vd)) @
     test_write_string (lastModified vd) @ test_write_string (version vd)"

definition test_parse :: "jsstring \<Rightarrow> js_error + parsed_json" where
  "test_parse s =
     (let n = length (takeWhile (\<lambda>c. c = 0x23) s)
      in case test_read_entries n (drop (Suc n) s) of (es, r) \<Rightarrow>
         case test_read_string r of (lm, r1) \<Rightarrow>
         case test_read_string r1 of (v, r2) \<Rightarrow>
           if test_stringify \<lparr>vd_entries = es, lastModified = lm, version = v\<rparr> = s
           then Inr (JValue (Some es)) else Inl (Error ''SyntaxError''))"

definition test_platform :: platform where
  "test_platform =
     \<lparr>subtle_available = True, PBKDF2 = test_PBKDF2, AES_GCM_encrypt = test_encrypt,
      AES_GCM_decrypt = test_decrypt, spread_limit = 65535, JSON_stringify = test_stringify,
      JSON_parse = test_parse\<rparr>"

definition test_user :: User where
  "test_user = \<lparr>user_username = str ''alice'', vault_file = str ''vault_alice.dat''\<rparr>"

definition test_world :: world where
  "test_world =
     \<lparr>vault = initialState,
      auth = \<lparr>isLoggedIn = True, currentUser = Some test_user, isLoading = False\<rparr>,
      secure_store = \<lparr>items = Map.empty, rejects = (\<lambda>k. None)\<rparr>,
      random = (\<lambda>i. of_nat i),
      unique_ids = (\<lambda>i. replicate (Suc i) 0x61)\<rparr>"

text \<open>An entry, an unlocked world that holds it, and the blob of the reference platform.\<close>

definition test_entry :: PasswordEntry where
  "test_entry = \<lparr>entry_id = str ''a'', site = str ''example.com'', username = str ''alice'',
      password = str ''p@ss'', createdAt = str ''2024-01-01T00:00:00.000Z'',
      updatedAt = str ''2024-01-01T00:00:00.000Z''\<rparr>"

definition test_unlocked_world :: world where
  "test_unlocked_world =
     test_world\<lparr>vault := \<lparr>entries = [test_entry], isLocked = False,
                             masterPassword = Some (str ''hunter2'')\<rparr>\<rparr>"

definition test_blob :: "random_source \<Rightarrow> jsstring \<Rightarrow> jsstring \<Rightarrow> jsstring" where
  "test_blob rng dat mp =
     encode_combined test_platform
       (map rng [0..<32] @ map (\<lambda>i. rng (i + 32)) [0..<12] @ TextEncoder_encode dat @
        take 32 (TextEncoder_encode mp @ map rng [0..<32] @ replicate 32 0))"

text \<open>
  The store after an empty vault was saved for 'alice' under the master password
  'hunter2'; the world and the application, on the unlock screen, with that store.
\<close>

definition test_saved_store :: SecureStore where
  "test_saved_store =
     \<lparr>items = [VAULT_PREFIX @ str ''alice'' \<mapsto>
        test_blob (\<lambda>i. of_nat i)
          (test_stringify \<lparr>vd_entries = [], lastModified = str ''2024-06-01T00:00:00.000Z'',
                           version = str ''1.0''\<rparr>)
          (str ''hunter2'')],
      rejects = (\<lambda>k. None)\<rparr>"

definition test_saved_world :: world where
  "test_saved_world = test_world\<lparr>secure_store := test_saved_store\<rparr>"

definition test_app :: app where
  "test_app =
     \<lparr>app_world = test_saved_world, route = UnlockRoute, screen = mount_UnlockScreen, dialogs = []\<rparr>"

section \<open>Properties\<close>

lemma length_symbol_chars: "length symbol_chars = 26"
  by (simp add: symbol_chars_def str_def)

subsection \<open>The password generator\<close>

lemma length_charset_all: "length (lowercase_chars @ uppercase_chars @ number_chars @ symbol_chars) = 88"
  by (simp add: lowercase_chars_def uppercase_chars_def number_chars_def symbol_chars_def str_def)

lemma build_charset_all:
  "build_charset True True True True = (lowercase_chars @ uppercase_chars @ number_chars @ symbol_chars, 89)"
  by (simp add: build_charset_def)

lemma build_charset_none: "build_charset False False False False = ([], 0)"
  by (simp add: build_charset_def)

lemma charset_nonempty:
  "sy \<or> nu \<or> up \<or> lo \<Longrightarrow> fst (build_charset sy nu up lo) \<noteq> []"
  by (auto simp add: build_charset_def lowercase_chars_def uppercase_chars_def number_chars_def symbol_chars_def str_def)

lemma getRandomValues_length:
  "n \<le> 65536 \<Longrightarrow> getRandomValues rng n = (Inr (map rng [0..<n]), (\<lambda>i. rng (i + n)))"
  by (simp add: getRandomValues_def)

lemma charset_all_nonempty: "lowercase_chars @ uppercase_chars @ number_chars @ symbol_chars \<noteq> []"
  by (simp add: lowercase_chars_def str_def)

lemma generate_all_classes:
  "generateSecurePassword rng 16 True True True True =
     (Inr \<lparr>gen_password = map (\<lambda>b. (lowercase_chars @ uppercase_chars @ number_chars @ symbol_chars) ! (unat b mod 88)) (map rng [0..<16]),
           entropy = 16 * log 2 89\<rparr>, (\<lambda>i. rng (i + 16)))"
  using charset_all_nonempty
  by (simp add: generateSecurePassword_def build_charset_all getRandomValues_def length_charset_all del: length_append append_is_Nil_conv)


lemma log2_89_95: "log 2 89 \<noteq> log 2 (95::real)"
proof -
  have "log 2 89 < log 2 (95::real)" by (subst log_less_cancel_iff) simp_all
  then show ?thesis by (rule less_imp_neq)
qed


lemma generate_no_class: "generateSecurePassword rng len False False False False =
    (Inl (Error ''At least one character type must be selected''), rng)"
  by (simp add: generateSecurePassword_def build_charset_none)

subsection \<open>Base64\<close>

lemma length_base64chars: "length base64chars = 64"
  by (simp add: base64chars_def str_def)

lemma distinct_base64chars: "distinct base64chars"
  by (simp add: base64chars_def str_def)

lemma base64chars_plain: "c \<in> set base64chars \<Longrightarrow> \<not> is_ascii_whitespace c \<and> c \<noteq> 0x3D"
  by (auto simp add: base64chars_def str_def is_ascii_whitespace_def)

lemma index_of_nth: "distinct xs \<Longrightarrow> n < length xs \<Longrightarrow> index_of (xs ! n) xs = Some n"
proof (induction xs arbitrary: n)
  case Nil
  then show ?case by simp
next
  case (Cons x xs)
  show ?case
  proof (cases n)
    case 0
    then show ?thesis by simp
  next
    case (Suc m)
    with Cons.prems have "xs ! m \<noteq> x" by auto
    with Suc Cons show ?thesis by simp
  qed
qed

lemma index_of_base64chars: "n < 64 \<Longrightarrow> index_of (base64chars ! n) base64chars = Some n"
  by (simp add: index_of_nth distinct_base64chars length_base64chars)

lemma sextet_bound_hi: "x < 4 \<Longrightarrow> y < 16 \<Longrightarrow> x * 16 + y < (64::nat)" by simp
lemma sextet_bound_lo: "x < 16 \<Longrightarrow> y < 4 \<Longrightarrow> x * 4 + y < (64::nat)" by simp
lemma byte_div4: "a < 256 \<Longrightarrow> a div 4 < (64::nat)" by simp
lemma byte_div16: "a < 256 \<Longrightarrow> a div 16 < (16::nat)" by simp
lemma byte_div64: "a < 256 \<Longrightarrow> a div 64 < (4::nat)" by simp

lemma sextets_bound: "\<forall>a \<in> set ns. a < 256 \<Longrightarrow> \<forall>s \<in> set (sextets_of ns). s < 64"
proof (induction ns rule: sextets_of.induct)
  case (4 a b c r)
  then have "a < 256" "b < 256" "c < 256" by auto
  then have "a div 4 < 64" "(a mod 4) * 16 + b div 16 < 64" "(b mod 16) * 4 + c div 64 < 64" "c mod 64 < 64"
    by (simp_all add: sextet_bound_hi sextet_bound_lo byte_div16 byte_div64)
  with 4 show ?case by auto
next
  case (3 a b)
  then have "a < 256" "b < 256" by auto
  then have "a div 4 < 64" "(a mod 4) * 16 + b div 16 < 64" "(b mod 16) * 4 + 0 < 64"
    by (simp_all add: sextet_bound_hi sextet_bound_lo byte_div16 del: add_0_right)
  then show ?case by auto
next
  case (2 a)
  then have "a < 256" by auto
  then have "a div 4 < 64" "(a mod 4) * 16 + 0 < 64" by (simp_all add: sextet_bound_hi del: add_0_right)
  then show ?case by auto
qed simp

lemma base64_encode_shape:
  "base64_encode ns = map ((!) base64chars) (sextets_of ns) @ replicate (padding_of ns) 0x3D"
  by (induction ns rule: base64_encode.induct) (simp_all add: numeral_2_eq_2)

lemma div_mult_add: "y < n \<Longrightarrow> (x * n + y) div n = (x::nat)" by simp
lemma mod_mult_add: "y < n \<Longrightarrow> (x * n + y) mod n = (y::nat)" by simp

lemma bytes_of_sextets_1: "b < 256 \<Longrightarrow> (a div 4) * 4 + ((a mod 4) * 16 + b div 16) div 16 = (a::nat)"
  by (simp add: div_mult_add byte_div16)
lemma bytes_of_sextets_2: "b < 256 \<Longrightarrow> c < 256 \<Longrightarrow>
    (((a mod 4) * 16 + b div 16) mod 16) * 16 + ((b mod 16) * 4 + c div 64) div 4 = (b::nat)"
  by (simp add: div_mult_add mod_mult_add byte_div16 byte_div64)
lemma bytes_of_sextets_3: "c < 256 \<Longrightarrow> (((b mod 16) * 4 + c div 64) mod 4) * 64 + c mod 64 = (c::nat)"
  by (simp add: mod_mult_add byte_div64)

lemma base64_bytes_sextets: "\<forall>a \<in> set ns. a < 256 \<Longrightarrow> base64_bytes (sextets_of ns) = ns"
proof (induction ns rule: sextets_of.induct)
  case (4 a b c r)
  then have "a < 256" "b < 256" "c < 256" by auto
  with 4 show ?case by (simp add: bytes_of_sextets_1 bytes_of_sextets_2 bytes_of_sextets_3)
next
  case (3 a b)
  then have "a < 256" "b < 256" by auto
  then show ?case using bytes_of_sextets_1[of b a] bytes_of_sextets_2[of b 0 a] by simp
next
  case (2 a)
  then show ?case using bytes_of_sextets_1[of 0 a] by simp
qed simp

lemma sextets_length_mod: "length (sextets_of ns) mod 4 \<noteq> 1"
  by (induction ns rule: sextets_of.induct) simp_all

lemma total_length: "(length (sextets_of ns) + padding_of ns) mod 4 = 0"
  by (induction ns rule: sextets_of.induct) simp_all

lemma padding_cases: "padding_of ns = 0 \<or> (padding_of ns = 1 \<and> sextets_of ns \<noteq> []) \<or> (padding_of ns = 2 \<and> sextets_of ns \<noteq> [])"
  by (induction ns rule: sextets_of.induct) auto

lemma base64_sextets_map:
  "\<forall>s \<in> set ss. s < 64 \<Longrightarrow> base64_sextets (map ((!) base64chars) ss) = Some ss"
  by (induction ss) (simp_all add: index_of_base64chars)

lemma body_plain:
  assumes "\<forall>s \<in> set ss. s < 64"
  shows "\<forall>c \<in> set (map ((!) base64chars) ss). \<not> is_ascii_whitespace c \<and> c \<noteq> 0x3D"
proof -
  have "base64chars ! s \<in> set base64chars" if "s < 64" for s
    using that by (simp add: length_base64chars)
  with assms show ?thesis by (auto dest!: base64chars_plain)
qed

lemma filter_encoded:
  assumes "\<forall>c \<in> set body. \<not> is_ascii_whitespace c \<and> c \<noteq> 0x3D"
  shows "filter (\<lambda>c. \<not> is_ascii_whitespace c) (body @ replicate k 0x3D) = body @ replicate k 0x3D"
proof -
  have "\<not> is_ascii_whitespace 0x3D" by (simp add: is_ascii_whitespace_def)
  with assms show ?thesis by (auto simp add: filter_id_conv)
qed

lemma strip_padding_encoded:
  assumes plain: "\<forall>c \<in> set body. c \<noteq> 0x3D"
    and len: "(length body + k) mod 4 = 0"
    and k: "k = 0 \<or> (k = 1 \<and> body \<noteq> []) \<or> (k = 2 \<and> body \<noteq> [])"
  shows "strip_padding (body @ replicate k 0x3D) = body"
proof -
  have last_body: "body \<noteq> [] \<Longrightarrow> last body \<noteq> 0x3D"
    using plain last_in_set by blast
  from k consider "k = 0" | "k = 1" "body \<noteq> []" | "k = 2" "body \<noteq> []" by auto
  then show ?thesis
  proof cases
    case 1
    then show ?thesis using last_body by (auto simp add: strip_padding_def)
  next
    case 2
    then show ?thesis using last_body len by (simp add: strip_padding_def)
  next
    case 3
    then have r: "replicate k (0x3D::16 word) = [0x3D, 0x3D]" by (simp add: numeral_2_eq_2)
    have "butlast (body @ [0x3D, 0x3D::16 word]) = body @ [0x3D]"
      by (simp add: butlast_append)
    then show ?thesis using 3 last_body len unfolding strip_padding_def r by (simp add: Let_def)
  qed
qed

lemma atob_base64_encode:
  assumes "\<forall>a \<in> set ns. a < 256"
  shows "atob (base64_encode ns) = Inr (map of_nat ns)"
proof -
  let ?body = "map ((!) base64chars) (sextets_of ns)"
  let ?k = "padding_of ns"
  have b64: "\<forall>s \<in> set (sextets_of ns). s < 64" using assms by (rule sextets_bound)
  have plain: "\<forall>c \<in> set ?body. \<not> is_ascii_whitespace c \<and> c \<noteq> 0x3D"
    using b64 by (rule body_plain)
  have f: "filter (\<lambda>c. \<not> is_ascii_whitespace c) (base64_encode ns) = ?body @ replicate ?k 0x3D"
    unfolding base64_encode_shape using plain by (rule filter_encoded)
  have k: "?k = 0 \<or> (?k = 1 \<and> ?body \<noteq> []) \<or> (?k = 2 \<and> ?body \<noteq> [])"
    using padding_cases[of ns] by simp
  have len: "(length ?body + ?k) mod 4 = 0" using total_length[of ns] by simp
  have s: "strip_padding (?body @ replicate ?k 0x3D) = ?body"
    using plain len k by (intro strip_padding_encoded) auto
  have m: "length ?body mod 4 \<noteq> 1" using sextets_length_mod[of ns] by simp
  have x: "base64_sextets ?body = Some (sextets_of ns)" using b64 by (rule base64_sextets_map)
  show ?thesis
    unfolding atob_def f s Let_def using m x base64_bytes_sextets[OF assms] by simp
qed

lemma unat_byte_bound: "\<forall>a \<in> set (map unat (bs :: byte list)). a < 256"
proof -
  have "unat b < 256" for b :: byte using unsigned_less[of b, where 'a = nat] by simp
  then show ?thesis by simp
qed

lemma atob_encode_bytes: "atob (base64_encode (map unat (bs :: byte list))) = Inr (map ucast bs)"
proof -
  have "map (of_nat :: nat \<Rightarrow> 16 word) (map unat bs) = map ucast bs" by simp
  then show ?thesis using atob_base64_encode[OF unat_byte_bound[of bs]] by simp
qed

lemma ucast_roundtrip: "map (ucast :: 16 word \<Rightarrow> byte) (map ucast (bs :: byte list)) = bs"
proof -
  have "(ucast :: 16 word \<Rightarrow> byte) (ucast b) = b" for b :: byte
    by (rule bit_word_eqI) (auto simp add: bit_simps)
  then show ?thesis by (simp add: map_idI)
qed

lemma mask_63: "(63::32 word) = mask 6" by (simp add: mask_eq_exp_minus_1)

lemma bit_byte_bound: "bit (a :: byte) n \<Longrightarrow> n < 8"
  using bit_imp_le_length[of a n] by simp

lemma bitmap_bits_18: "unat (signed_drop_bit 18 (bitmap_of a b c) AND 63) = drop_bit 2 (unat a)"
  unfolding mask_63 bitmap_of_def
  by (rule bit_eqI) (auto simp add: bit_simps dest: bit_byte_bound)

lemma bitmap_bits_12: "unat (signed_drop_bit 12 (bitmap_of a b c) AND 63) = push_bit 4 (take_bit 2 (unat a)) OR drop_bit 4 (unat b)"
  unfolding mask_63 bitmap_of_def
  by (rule bit_eqI) (auto simp add: bit_simps dest: bit_byte_bound)

lemma bitmap_bits_6: "unat (signed_drop_bit 6 (bitmap_of a b c) AND 63) = push_bit 2 (take_bit 4 (unat b)) OR drop_bit 6 (unat c)"
  unfolding mask_63 bitmap_of_def
  by (rule bit_eqI) (auto simp add: bit_simps dest: bit_byte_bound)

lemma bitmap_bits_0: "unat (bitmap_of a b c AND 63) = take_bit 6 (unat c)"
  unfolding mask_63 bitmap_of_def
  by (rule bit_eqI) (auto simp add: bit_simps dest: bit_byte_bound)

lemma or_add_nat: "push_bit n (x::nat) OR drop_bit k (take_bit (k + n) y) = x * 2 ^ n + drop_bit k (take_bit (k + n) y)"
proof -
  have "push_bit n x + drop_bit k (take_bit (k + n) y) = push_bit n x OR drop_bit k (take_bit (k + n) y)"
    by (rule disjunctive_add) (auto simp add: bit_simps)
  then show ?thesis by (simp add: push_bit_eq_mult)
qed

lemma take_bit_8_unat: "take_bit 8 (unat (b :: byte)) = unat b"
  using unsigned_less[of b, where 'a = nat] by (simp add: take_bit_nat_eq_self_iff)

lemma unat_byte_mod: "unat (b :: byte) mod 256 = unat b"
  using unsigned_less[of b, where 'a = nat] by simp

lemma unat_ucast_byte: "unat (ucast (b :: byte) :: 16 word) = unat b"
proof -
  have "unat b < 65536" using unsigned_less[of b, where 'a = nat] by simp
  then show ?thesis by (simp add: unsigned_ucast_eq take_bit_nat_eq_self_iff)
qed

lemma bitmap_sextet_1: "unat (signed_drop_bit 18 (bitmap_of a b c) AND 63) = unat a div 4"
  by (simp add: bitmap_bits_18 drop_bit_eq_div)

lemma bitmap_sextet_2: "unat (signed_drop_bit 12 (bitmap_of a b c) AND 63) = (unat a mod 4) * 16 + unat b div 16"
  using or_add_nat[of 4 "take_bit 2 (unat a)" 4 "unat b"]
  by (simp add: bitmap_bits_12 drop_bit_eq_div take_bit_eq_mod unat_byte_mod)

lemma bitmap_sextet_3: "unat (signed_drop_bit 6 (bitmap_of a b c) AND 63) = (unat b mod 16) * 4 + unat c div 64"
  using or_add_nat[of 2 "take_bit 4 (unat b)" 6 "unat c"]
  by (simp add: bitmap_bits_6 drop_bit_eq_div take_bit_eq_mod unat_byte_mod)

lemma bitmap_sextet_4: "unat (bitmap_of a b c AND 63) = unat c mod 64"
  by (simp add: bitmap_bits_0 take_bit_eq_mod)

lemma charAt_base64: "n < 64 \<Longrightarrow> unat i = n \<Longrightarrow> charAt base64chars i = [base64chars ! n]"
  by (auto simp add: charAt_def length_base64chars)

lemma base64_fallback_eq: "base64_fallback bs = base64_encode (map unat bs)"
proof (induction bs rule: base64_fallback.induct)
  case 1
  then show ?case by simp
next
  case (2 a)
  have "unat a < 256" using unsigned_less[of a, where 'a = nat] by simp
  then have "unat a div 4 < 64" "(unat a mod 4) * 16 + 0 < 64"
    by (simp_all add: sextet_bound_hi del: add_0_right)
  then show ?case
    using bitmap_sextet_1[of a 0 0] bitmap_sextet_2[of a 0 0] by (simp add: charAt_base64 Let_def str_def)
next
  case (3 a b)
  have "unat a < 256" "unat b < 256"
    using unsigned_less[of a, where 'a = nat] unsigned_less[of b, where 'a = nat] by simp_all
  then have "unat a div 4 < 64" "(unat a mod 4) * 16 + unat b div 16 < 64" "(unat b mod 16) * 4 + 0 < 64"
    by (simp_all add: sextet_bound_hi sextet_bound_lo byte_div16 del: add_0_right)
  then show ?case
    using bitmap_sextet_1[of a b 0] bitmap_sextet_2[of a b 0] bitmap_sextet_3[of a b 0] by (simp add: charAt_base64 Let_def str_def)
next
  case (4 a b c r)
  have "unat a < 256" "unat b < 256" "unat c < 256"
    using unsigned_less[of a, where 'a = nat] unsigned_less[of b, where 'a = nat]
      unsigned_less[of c, where 'a = nat] by simp_all
  then have "unat a div 4 < 64" "(unat a mod 4) * 16 + unat b div 16 < 64"
    "(unat b mod 16) * 4 + unat c div 64 < 64" "unat c mod 64 < 64"
    by (simp_all add: sextet_bound_hi sextet_bound_lo byte_div16 byte_div64)
  then show ?case
    using 4 bitmap_sextet_1[of a b c] bitmap_sextet_2[of a b c] bitmap_sextet_3[of a b c] bitmap_sextet_4[of a b c]
    by (simp add: charAt_base64 Let_def)
qed

lemma btoa_bytes: "btoa (map ucast (bs :: byte list)) = Inr (base64_encode (map unat bs))"
proof -
  have le: "(ucast b :: 16 word) \<le> 0xFF" for b :: byte
  proof -
    have "unat (ucast b :: 16 word) = unat b" by (rule unat_ucast_byte)
    moreover have "unat b < 256" using unsigned_less[of b, where 'a = nat] by simp
    ultimately show ?thesis by (simp add: word_le_nat_alt)
  qed
  have "\<not> (\<exists>c \<in> set (map ucast bs :: 16 word list). c > 0xFF)"
    using le by (auto simp add: not_less)
  moreover have "map unat (map ucast bs :: 16 word list) = map unat bs"
    by (simp add: unat_ucast_byte)
  ultimately show ?thesis unfolding btoa_def by (simp del: map_map)
qed

lemma concat_slices: "0 < n \<Longrightarrow> concat (slices n xs) = xs"
proof (induction n xs rule: slices.induct)
  case (1 n xs)
  then show ?case by (subst slices.simps) auto
qed

lemma spread_chunks_concat:
  "spread_chunks P cs = Inr ss \<Longrightarrow> concat ss = map ucast (concat cs)"
proof (induction cs arbitrary: ss)
  case Nil
  then show ?case by simp
next
  case (Cons c cs)
  then show ?case
    by (auto simp add: fromCharCode_spread_def split: sum.splits if_splits)
qed

lemma encode_combined_eq: "encode_combined P bs = base64_encode (map unat bs)"
proof -
  have a: "fromCharCode_spread P bs = Inr s \<Longrightarrow> btoa s = Inr (base64_encode (map unat bs))" for s
    by (auto simp add: fromCharCode_spread_def btoa_bytes split: if_splits)
  have b: "spread_chunks P (slices 65536 bs) = Inr chunks \<Longrightarrow>
      btoa (concat chunks) = Inr (base64_encode (map unat bs))" for chunks
    using spread_chunks_concat[of P "slices 65536 bs" chunks] concat_slices[of 65536 bs]
    by (simp add: btoa_bytes)
  show ?thesis
    unfolding encode_combined_def
    by (auto simp add: base64_fallback_eq a b split: sum.splits)
qed

lemma atob_encode_combined: "atob (encode_combined P bs) = Inr (map ucast bs)"
  by (simp add: encode_combined_eq atob_encode_bytes)

subsection \<open>Claims about the password generator\<close>

text \<open>
  C2 (amended). For every state of the random source,
  \<open>generateSecurePassword(16, true, true, true, true)\<close> returns a password of length
  exactly 16, every character of which belongs to the 88-character union of lowercase (26),
  uppercase (26), digits (10) and the fixed symbol string, which has 26 characters.
\<close>

theorem generateSecurePassword_16_all_classes:
  "case generateSecurePassword rng 16 True True True True of
     (Inl e, rng') \<Rightarrow> False
   | (Inr r, rng') \<Rightarrow>
       length (gen_password r) = 16 \<and>
       set (gen_password r) \<subseteq>
         set (lowercase_chars @ uppercase_chars @ number_chars @ symbol_chars) \<and>
       length (lowercase_chars @ uppercase_chars @ number_chars @ symbol_chars) = 88 \<and>
       length lowercase_chars = 26 \<and> length uppercase_chars = 26 \<and>
       length number_chars = 10 \<and> length symbol_chars = 26"
proof -
  let ?cs = "lowercase_chars @ uppercase_chars @ number_chars @ symbol_chars"
  have "?cs ! (n mod 88) \<in> set ?cs" for n
    using length_charset_all by (metis mod_less_divisor nth_mem zero_less_numeral)
  moreover have "length lowercase_chars = 26" "length uppercase_chars = 26"
    "length number_chars = 10"
    by (simp_all add: lowercase_chars_def uppercase_chars_def number_chars_def str_def)
  ultimately show ?thesis
    using length_charset_all length_symbol_chars by (auto simp add: generate_all_classes)
qed

text \<open>
  C2 as stated fails: the union has 88 characters (the symbol string has 26, not 27), and
  the entropy reported for length 16 is \<open>16 * log2(89)\<close>, since \<open>charsetSize\<close> counts 27
  for the symbols; it is not \<open>16 * log2(95)\<close>.
\<close>

theorem generateSecurePassword_16_not_95:
  "length (fst (build_charset True True True True)) = 88 \<and>
   length symbol_chars = 26 \<and>
   (case generateSecurePassword (\<lambda>i. 0) 16 True True True True of
      (Inl e, rng') \<Rightarrow> False
    | (Inr r, rng') \<Rightarrow> entropy r = 16 * log 2 89 \<and> entropy r \<noteq> 16 * log 2 95)"
  using length_charset_all log2_89_95
  by (simp add: generate_all_classes build_charset_all length_symbol_chars)

text \<open>
  C8 (amended). \<open>generateSecurePassword\<close> raises 'At least one character type must be
  selected' whenever no character class is selected, for every length. The range of the
  length is checked by the screens that call it, not by the generator: \<open>generatePassword\<close>
  of AddEntryScreen shows an error alert and sets no password when the length is not a
  number or lies outside 8..128 or no class is selected, and \<open>generatePassword\<close> of
  PasswordGeneratorScreen does so when the length is not a number or lies outside 4..128
  or no class is selected; neither reads the random source then.
\<close>

theorem generator_validation:
  "generateSecurePassword rng len False False False False =
     (Inl (Error ''At least one character type must be selected''), rng) \<and>
   (length_outside 8 128 g \<or> no_class_selected g \<longrightarrow>
      (\<exists>msg. AddEntryScreen_generatePassword rng g = (None, Alert ''Error'' msg, rng))) \<and>
   (length_outside 4 128 g \<or> no_class_selected g \<longrightarrow>
      (\<exists>msg. PasswordGeneratorScreen_generatePassword rng g =
                (None, Some (Alert ''Invalid Settings'' msg), rng)))"
  by (auto simp add: generate_no_class AddEntryScreen_generatePassword_def
        PasswordGeneratorScreen_generatePassword_def validateSettings_def length_outside_def
        no_class_selected_def split: option.splits)

lemma parseInt_3: "parseInt (str ''3'') = Some 3"
  by (simp add: parseInt_def str_def StrWhiteSpaceChar_def digit_value_def)

theorem generator_validation_witness:
  "length_outside 8 128
     \<lparr>lengthText = str ''3'', includeSymbols = True, includeNumbers = True,
      includeUppercase = True, includeLowercase = True\<rparr> \<and>
   length_outside 4 128
     \<lparr>lengthText = str ''3'', includeSymbols = True, includeNumbers = True,
      includeUppercase = True, includeLowercase = True\<rparr> \<and>
   fst (AddEntryScreen_generatePassword (\<lambda>i. 0)
     \<lparr>lengthText = str ''3'', includeSymbols = True, includeNumbers = True,
      includeUppercase = True, includeLowercase = True\<rparr>) = None \<and>
   fst (PasswordGeneratorScreen_generatePassword (\<lambda>i. 0)
     \<lparr>lengthText = str ''3'', includeSymbols = True, includeNumbers = True,
      includeUppercase = True, includeLowercase = True\<rparr>) = None"
proof -
  let ?g = "\<lparr>lengthText = str ''3'', includeSymbols = True, includeNumbers = True,
      includeUppercase = True, includeLowercase = True\<rparr>"
  have h8: "length_outside 8 128 ?g" and h4: "length_outside 4 128 ?g"
    by (simp_all add: length_outside_def parseInt_3)
  from generator_validation[of "\<lambda>i. 0" 3 ?g] h8 h4 show ?thesis by auto
qed

text \<open>
  C8 as stated fails: called with length 3, outside 4..128, and all classes selected, the
  generator raises nothing and returns a password of 3 characters.
\<close>

theorem generateSecurePassword_length_3:
  "case generateSecurePassword (\<lambda>i. 0) 3 True True True True of
      (Inl e, rng') \<Rightarrow> False
    | (Inr r, rng') \<Rightarrow> gen_password r = str ''aaa''"
  using charset_all_nonempty
  by (simp add: generateSecurePassword_def build_charset_all getRandomValues_def upt_rec
        length_charset_all del: length_append append_is_Nil_conv)
     (simp add: lowercase_chars_def str_def)

subsection \<open>Text encoding and the round trip of the cipher\<close>

lemma mod_offset: "x < n \<Longrightarrow> (n * k + x) mod n = (x::nat)"
  by simp

lemma mod_offset_32: "x < 32 \<Longrightarrow> (192 + x) mod 32 = (x::nat)" using mod_offset[of x 32 6] by simp
lemma mod_offset_16: "x < 16 \<Longrightarrow> (224 + x) mod 16 = (x::nat)" using mod_offset[of x 16 14] by simp
lemma mod_offset_8: "x < 8 \<Longrightarrow> (240 + x) mod 8 = (x::nat)" using mod_offset[of x 8 30] by simp
lemma mod_offset_64: "y < 64 \<Longrightarrow> (128 + y) mod 64 = (y::nat)" using mod_offset[of y 64 2] by simp

lemma decoder_1_byte: "x < 128 \<Longrightarrow> utf8_decoder utf8_init (x # rest) = x # utf8_decoder utf8_init rest"
  by (simp add: utf8_init_def)

lemma decoder_2_bytes:
  assumes "2 \<le> x" "x < 32" "y < 64"
  shows "utf8_decoder utf8_init ((192 + x) # (128 + y) # rest) = (x * 64 + y) # utf8_decoder utf8_init rest"
  using assms by (simp add: utf8_init_def mod_offset_32 mod_offset_64 Let_def)

lemma decoder_3_bytes:
  assumes "x < 16" "y < 64" "z < 64" "x = 0 \<longrightarrow> 32 \<le> y" "x = 13 \<longrightarrow> y < 32"
  shows "utf8_decoder utf8_init ((224 + x) # (128 + y) # (128 + z) # rest) =
         (x * 4096 + y * 64 + z) # utf8_decoder utf8_init rest"
  using assms by (simp add: utf8_init_def mod_offset_16 mod_offset_64 Let_def) arith

lemma decoder_4_bytes:
  assumes "x < 5" "y < 64" "z < 64" "w < 64" "x = 0 \<longrightarrow> 16 \<le> y" "x = 4 \<longrightarrow> y < 16"
  shows "utf8_decoder utf8_init ((240 + x) # (128 + y) # (128 + z) # (128 + w) # rest) =
         (x * 262144 + y * 4096 + z * 64 + w) # utf8_decoder utf8_init rest"
  using assms by (simp add: utf8_init_def mod_offset_8 mod_offset_64 Let_def) arith

lemma split64: "(cp::nat) = (cp div 64) * 64 + cp mod 64" by simp

lemma div4096: "(cp::nat) div 4096 = (cp div 64) div 64"
  by (simp add: div_mult2_eq[symmetric])

lemma div262144: "(cp::nat) div 262144 = ((cp div 64) div 64) div 64"
  by (simp add: div_mult2_eq[symmetric])

lemma decode_encode_2_bytes:
  assumes "0x80 \<le> cp" "cp < 0x800"
  shows "utf8_decoder utf8_init (utf8_encode_cp cp @ rest) = cp # utf8_decoder utf8_init rest"
proof -
  define x where "x = cp div 64"
  define y where "y = cp mod 64"
  have cp: "cp = x * 64 + y" and y: "y < 64" by (simp_all add: x_def y_def)
  have x: "2 \<le> x" "x < 32" using assms cp y by arith+
  have "utf8_encode_cp cp = [192 + x, 128 + y]"
    using assms by (simp add: utf8_encode_cp_def x_def y_def)
  then show ?thesis using decoder_2_bytes[OF x y, of rest] cp by simp
qed

lemma decode_encode_3_bytes:
  assumes "0x800 \<le> cp" "cp < 0x10000" "\<not> (0xD800 \<le> cp \<and> cp \<le> 0xDFFF)"
  shows "utf8_decoder utf8_init (utf8_encode_cp cp @ rest) = cp # utf8_decoder utf8_init rest"
proof -
  define q where "q = cp div 64"
  define z where "z = cp mod 64"
  define x where "x = q div 64"
  define y where "y = q mod 64"
  have cp: "cp = q * 64 + z" and z: "z < 64" by (simp_all add: q_def z_def)
  have q: "q = x * 64 + y" and y: "y < 64" by (simp_all add: x_def y_def)
  have cp': "cp = x * 4096 + y * 64 + z" using cp q by simp
  have x: "x < 16" using assms cp' y z by arith
  have c1: "x = 0 \<longrightarrow> 32 \<le> y" using assms cp' y z by arith
  have c2: "x = 13 \<longrightarrow> y < 32" using assms cp' y z by arith
  have "utf8_encode_cp cp = [224 + x, 128 + y, 128 + z]"
    using assms by (simp add: utf8_encode_cp_def x_def y_def z_def q_def div4096)
  then show ?thesis using decoder_3_bytes[OF x y z c1 c2, of rest] cp' by simp
qed

lemma decode_encode_4_bytes:
  assumes "0x10000 \<le> cp" "cp < 0x110000"
  shows "utf8_decoder utf8_init (utf8_encode_cp cp @ rest) = cp # utf8_decoder utf8_init rest"
proof -
  define q1 where "q1 = cp div 64"
  define w where "w = cp mod 64"
  define q2 where "q2 = q1 div 64"
  define z where "z = q1 mod 64"
  define x where "x = q2 div 64"
  define y where "y = q2 mod 64"
  have cp: "cp = q1 * 64 + w" and w: "w < 64" by (simp_all add: q1_def w_def)
  have q1: "q1 = q2 * 64 + z" and z: "z < 64" by (simp_all add: q2_def z_def)
  have q2: "q2 = x * 64 + y" and y: "y < 64" by (simp_all add: x_def y_def)
  have cp': "cp = x * 262144 + y * 4096 + z * 64 + w" using cp q1 q2 by simp
  have x: "x < 5" using assms cp' y z w by arith
  have c1: "x = 0 \<longrightarrow> 16 \<le> y" using assms cp' y z w by arith
  have c2: "x = 4 \<longrightarrow> y < 16" using assms cp' y z w by arith
  have "utf8_encode_cp cp = [240 + x, 128 + y, 128 + z, 128 + w]"
    using assms by (simp add: utf8_encode_cp_def x_def y_def z_def w_def q1_def q2_def div4096 div262144)
  then show ?thesis using decoder_4_bytes[OF x y z w c1 c2, of rest] cp' by simp
qed

lemma utf8_encode_cp_bytes: "is_scalar cp \<Longrightarrow> \<forall>b \<in> set (utf8_encode_cp cp). b < 256"
proof -
  assume s: "is_scalar cp"
  have m: "x mod 64 < (64::nat)" for x by simp
  have a: "128 + x mod 64 < (256::nat)" for x using m[of x] by linarith
  have "cp < 0x800 \<Longrightarrow> 192 + cp div 64 < 256" by simp
  moreover have "cp < 0x10000 \<Longrightarrow> 224 + cp div 4096 < 256" by simp
  moreover have "240 + cp div 262144 < 256"
  proof -
    have "cp < 4194304" using s by (simp add: is_scalar_def)
    then have "cp div 262144 < 16" by simp
    then show ?thesis by simp
  qed
  ultimately show ?thesis using a by (auto simp add: utf8_encode_cp_def)
qed

lemma decode_encode_cp:
  assumes "is_scalar cp"
  shows "utf8_decoder utf8_init (utf8_encode_cp cp @ rest) = cp # utf8_decoder utf8_init rest"
proof -
  have ns: "\<not> (0xD800 \<le> cp \<and> cp \<le> 0xDFFF)" and lt: "cp < 0x110000"
    using assms by (simp_all add: is_scalar_def)
  consider "cp < 0x80" | "0x80 \<le> cp" "cp < 0x800" | "0x800 \<le> cp" "cp < 0x10000" | "0x10000 \<le> cp"
    by linarith
  then show ?thesis
  proof cases
    case 1
    then have "utf8_encode_cp cp = [cp]" by (simp add: utf8_encode_cp_def)
    then show ?thesis using decoder_1_byte[OF 1] by simp
  next
    case 2
    then show ?thesis by (rule decode_encode_2_bytes)
  next
    case 3
    show ?thesis by (rule decode_encode_3_bytes[OF 3(1) 3(2) ns])
  next
    case 4
    show ?thesis by (rule decode_encode_4_bytes[OF 4 lt])
  qed
qed

lemma decode_encode_cps:
  "\<forall>cp \<in> set cps. is_scalar cp \<Longrightarrow>
   utf8_decoder utf8_init (concat (map utf8_encode_cp cps)) = cps"
proof (induction cps)
  case Nil
  then show ?case by (simp add: utf8_init_def)
next
  case (Cons cp cps)
  have "utf8_decoder utf8_init (utf8_encode_cp cp @ concat (map utf8_encode_cp cps)) =
        cp # utf8_decoder utf8_init (concat (map utf8_encode_cp cps))"
    using Cons.prems by (intro decode_encode_cp) simp
  then show ?case using Cons by simp
qed

lemma is_high_surrogate_nat: "is_high_surrogate c \<longleftrightarrow> 0xD800 \<le> unat c \<and> unat c \<le> 0xDBFF"
  by (simp add: is_high_surrogate_def word_le_nat_alt)

lemma is_low_surrogate_nat: "is_low_surrogate c \<longleftrightarrow> 0xDC00 \<le> unat c \<and> unat c \<le> 0xDFFF"
  by (simp add: is_low_surrogate_def word_le_nat_alt)

lemma unat16_bound: "unat (c :: 16 word) < 65536"
  using unsigned_less[of c, where 'a = nat] by simp

lemma pair_scalar:
  assumes "is_high_surrogate c" "is_low_surrogate d"
  shows "is_scalar (0x10000 + (unat c - 0xD800) * 0x400 + (unat d - 0xDC00))"
proof -
  define h where "h = unat c - 0xD800"
  define l where "l = unat d - 0xDC00"
  have "h < 1024" using assms(1) unfolding h_def is_high_surrogate_nat by linarith
  moreover have "l < 1024" using assms(2) unfolding l_def is_low_surrogate_nat by linarith
  ultimately have "is_scalar (0x10000 + h * 0x400 + l)" unfolding is_scalar_def by linarith
  then show ?thesis by (simp add: h_def l_def)
qed

lemma single_scalar:
  assumes "\<not> is_high_surrogate c" "\<not> is_low_surrogate c"
  shows "is_scalar (unat c)"
  using assms unat16_bound[of c] unfolding is_scalar_def is_high_surrogate_nat is_low_surrogate_nat by linarith

lemma replacement_scalar: "is_scalar 0xFFFD"
  by (simp add: is_scalar_def)

lemma utf16_decode_scalar: "\<forall>cp \<in> set (utf16_decode s). is_scalar cp"
proof (induction s rule: utf16_decode.induct)
  case 1
  then show ?case by simp
next
  case (2 c)
  then show ?case using single_scalar[of c] replacement_scalar by auto
next
  case (3 c d r)
  then show ?case
    using single_scalar[of c] replacement_scalar pair_scalar[of c d] by auto
qed

lemma pair_div: "l < 1024 \<Longrightarrow> (h * 1024 + l) div 1024 = (h::nat)" by simp
lemma pair_mod: "l < 1024 \<Longrightarrow> (h * 1024 + l) mod 1024 = (l::nat)" by simp

lemma utf16_pair:
  assumes "is_high_surrogate c" "is_low_surrogate d"
  shows "utf16_encode_cp (0x10000 + (unat c - 0xD800) * 0x400 + (unat d - 0xDC00)) = [c, d]"
proof -
  define h where "h = unat c - 0xD800"
  define l where "l = unat d - 0xDC00"
  have l: "l < 1024" using assms(2) unfolding l_def is_low_surrogate_nat by linarith
  have hc: "0xD800 + h = unat c" using assms(1) unfolding h_def is_high_surrogate_nat by linarith
  have ld: "0xDC00 + l = unat d" using assms(2) unfolding l_def is_low_surrogate_nat by linarith
  have "utf16_encode_cp (0x10000 + h * 0x400 + l) = [of_nat (0xD800 + h), of_nat (0xDC00 + l)]"
    using l by (simp add: utf16_encode_cp_def pair_div pair_mod)
  then show ?thesis unfolding hc ld by (simp add: h_def l_def)
qed

lemma utf16_single:
  "utf16_encode_cp (unat (c :: 16 word)) = [c]"
  using unat16_bound[of c] by (simp add: utf16_encode_cp_def)

lemma utf16_roundtrip: "isWellFormed s \<Longrightarrow> concat (map utf16_encode_cp (utf16_decode s)) = s"
proof (induction s rule: utf16_decode.induct)
  case 1
  then show ?case by simp
next
  case (2 c)
  then show ?case by (simp add: utf16_single)
next
  case (3 c d r)
  show ?case
  proof (cases "is_high_surrogate c")
    case True
    with 3 show ?thesis by (simp add: utf16_pair)
  next
    case False
    with 3 show ?thesis by (simp add: utf16_single)
  qed
qed

lemma unat_not_bom: "(c :: 16 word) \<noteq> 0xFEFF \<Longrightarrow> unat c \<noteq> 0xFEFF"
proof
  assume ne: "c \<noteq> 0xFEFF" and eq: "unat c = 0xFEFF"
  have "c = of_nat (unat c)" by simp
  also have "\<dots> = 0xFEFF" unfolding eq by simp
  finally show False using ne by simp
qed

lemma utf16_decode_no_bom:
  assumes "isWellFormed s" "s \<noteq> []" "hd s \<noteq> 0xFEFF"
  shows "utf16_decode s \<noteq> [] \<and> hd (utf16_decode s) \<noteq> 0xFEFF"
proof (cases s rule: utf16_decode.cases)
  case 1
  then show ?thesis using assms by simp
next
  case (2 c)
  then have "unat c \<noteq> 0xFEFF" using assms unat_not_bom[of c] by simp
  then show ?thesis using 2 assms by simp
next
  case (3 c d r)
  then have "unat c \<noteq> 0xFEFF" using assms unat_not_bom[of c] by simp
  then show ?thesis using 3 assms by simp
qed

lemma encoder_bytes: "map unat (TextEncoder_encode s) = concat (map utf8_encode_cp (utf16_decode s))"
proof -
  let ?bs = "concat (map utf8_encode_cp (utf16_decode s))"
  have "\<forall>b \<in> set ?bs. b < 256"
    using utf16_decode_scalar[of s] utf8_encode_cp_bytes by auto
  then have "map (\<lambda>b. unat (of_nat b :: byte)) ?bs = ?bs"
    by (intro map_idI) (auto simp add: unsigned_of_nat take_bit_nat_eq_self_iff)
  then show ?thesis by (simp add: TextEncoder_encode_def comp_def)
qed

lemma decode_encode: "utf8_decoder utf8_init (map unat (TextEncoder_encode s)) = utf16_decode s"
  unfolding encoder_bytes using utf16_decode_scalar[of s] by (rule decode_encode_cps)

lemma text_roundtrip:
  assumes "isWellFormed s" "\<not> starts_with_BOM s"
  shows "TextDecoder_decode (TextEncoder_encode s) = s"
proof (cases "s = []")
  case True
  then show ?thesis
    by (simp add: TextDecoder_decode_def TextEncoder_encode_def utf8_init_def)
next
  case False
  then have "hd s \<noteq> 0xFEFF" using assms(2) by (cases s) (simp_all add: starts_with_BOM_def)
  then have "utf16_decode s \<noteq> [] \<and> hd (utf16_decode s) \<noteq> 0xFEFF"
    using assms(1) False by (intro utf16_decode_no_bom)
  then have "(case utf16_decode s of [] \<Rightarrow> [] | cp # r \<Rightarrow> if cp = 0xFEFF then r else utf16_decode s)
              = utf16_decode s"
    by (cases "utf16_decode s") simp_all
  then show ?thesis
    unfolding TextDecoder_decode_def decode_encode Let_def
    using utf16_roundtrip[OF assms(1)] by simp
qed

lemma decryptData_encoded:
  assumes "length salt = 32" "length iv = 12"
  shows "decryptData P (encode_combined P (salt @ iv @ ct)) pw =
     (case deriveKey P pw salt of
        Inl e \<Rightarrow> Inl decryption_failed
      | Inr key \<Rightarrow>
          (case AES_GCM_decrypt P key iv ct of
             Inl e \<Rightarrow> Inl decryption_failed
           | Inr buf \<Rightarrow> Inr (TextDecoder_decode buf)))"
  using assms
  by (simp add: decryptData_def atob_encode_combined ucast_roundtrip SALT_LENGTH_def
        IV_LENGTH_def Let_def del: map_map split: sum.splits)

lemma encryptData_Inr:
  assumes "encryptData P rng p m = (Inr blob, rng')"
  shows "\<exists>key ct. deriveKey P m (map rng [0..<32]) = Inr key \<and>
           AES_GCM_encrypt P key (map (\<lambda>i. rng (i + 32)) [0..<12]) (TextEncoder_encode p) = Inr ct \<and>
           blob = encode_combined P (map rng [0..<32] @ map (\<lambda>i. rng (i + 32)) [0..<12] @ ct)"
  using assms
  by (auto simp add: encryptData_def getRandomValues_def SALT_LENGTH_def IV_LENGTH_def Let_def
        split: sum.splits)

lemma decrypt_after_encrypt:
  assumes "decrypt_inverts_encrypt P" "encryptData P rng p m = (Inr blob, rng')"
  shows "decryptData P blob m = Inr (TextDecoder_decode (TextEncoder_encode p))"
proof -
  from encryptData_Inr[OF assms(2)] obtain key ct where
    k: "deriveKey P m (map rng [0..<32]) = Inr key" and
    e: "AES_GCM_encrypt P key (map (\<lambda>i. rng (i + 32)) [0..<12]) (TextEncoder_encode p) = Inr ct" and
    b: "blob = encode_combined P (map rng [0..<32] @ map (\<lambda>i. rng (i + 32)) [0..<12] @ ct)"
    by blast
  have d: "AES_GCM_decrypt P key (map (\<lambda>i. rng (i + 32)) [0..<12]) ct = Inr (TextEncoder_encode p)"
    using assms(1) e by (simp add: decrypt_inverts_encrypt_def)
  show ?thesis unfolding b by (simp add: decryptData_encoded k d)
qed

lemma decrypt_after_encrypt_wellformed:
  assumes "decrypt_inverts_encrypt P" "encryptData P rng p m = (Inr blob, rng')"
    and "isWellFormed p" "\<not> starts_with_BOM p"
  shows "decryptData P blob m = Inr p"
  using decrypt_after_encrypt[OF assms(1,2)] text_roundtrip[OF assms(3,4)] by simp


lemma test_decrypt_tagged:
  "length key = 32 \<Longrightarrow>
   test_decrypt key' iv (dat @ key) =
     (if key' = key then Inr dat else Inl (Error ''OperationError''))"
  by (auto simp add: test_decrypt_def)

lemma test_platform_inverts: "decrypt_inverts_encrypt test_platform"
  by (auto simp add: decrypt_inverts_encrypt_def test_platform_def test_encrypt_def
        test_decrypt_tagged split: if_splits)

lemma test_encryptData:
  "encryptData test_platform rng p m =
     (Inr (encode_combined test_platform
        (map rng [0..<32] @ map (\<lambda>i. rng (i + 32)) [0..<12] @ TextEncoder_encode p @
         take 32 (TextEncoder_encode m @ map rng [0..<32] @ replicate 32 0))),
      (\<lambda>i. rng (i + 32 + 12)))"
  by (simp add: encryptData_def getRandomValues_def SALT_LENGTH_def IV_LENGTH_def Let_def
        deriveKey_def test_platform_def test_PBKDF2_def test_encrypt_def)



text \<open>
  On every platform whose decryption inverts its encryption, a plaintext that begins with
  U+FEFF comes back without it.
\<close>

lemma text_leading_BOM:
  assumes "isWellFormed q"
  shows "TextDecoder_decode (TextEncoder_encode (0xFEFF # q)) = q"
proof -
  have "utf16_decode (0xFEFF # q) = 0xFEFF # utf16_decode q"
    by (cases q) (simp_all add: is_high_surrogate_def is_low_surrogate_def)
  then show ?thesis
    unfolding TextDecoder_decode_def decode_encode Let_def
    using utf16_roundtrip[OF assms] by simp
qed

lemma decrypt_encrypt_leading_BOM:
  assumes "decrypt_inverts_encrypt P" "encryptData P rng (0xFEFF # q) m = (Inr blob, rng')"
    and "isWellFormed q"
  shows "decryptData P blob m = Inr q"
  using decrypt_after_encrypt[OF assms(1,2)] text_leading_BOM[OF assms(3)] by simp


subsection \<open>Loading and failures of decryption\<close>

lemma vault_error_decryption_failed: "vault_error decryption_failed = Error ''Invalid master password''"
  unfolding vault_error_def decryption_failed_def message_includes_def by code_simp

text \<open>
  C3. \<open>getEncryptedVault\<close> on a username whose storage key holds no sealed blob (the store
  answers \<open>null\<close>) returns the empty entry list and raises no error, for every master
  password.
\<close>

theorem getEncryptedVault_absent:
  "getItemAsync st (VAULT_PREFIX @ user) = Inr None \<Longrightarrow> getEncryptedVault P st user mp = Inr []"
  by (simp add: getEncryptedVault_def)

text \<open>
  The store of the reference world holds no blob for 'alice'.
\<close>

theorem getEncryptedVault_absent_witness:
  "getItemAsync (secure_store test_world) (VAULT_PREFIX @ str ''alice'') = Inr None \<and>
   getEncryptedVault test_platform (secure_store test_world) (str ''alice'') (str ''any password'') = Inr []"
proof -
  have h: "getItemAsync (secure_store test_world) (VAULT_PREFIX @ str ''alice'') = Inr None"
    by (simp add: getItemAsync_def test_world_def)
  from getEncryptedVault_absent[OF h] h show ?thesis by simp
qed

lemma decryptData_cases:
  "decryptData P blob pw = Inl decryption_failed \<or>
   (\<exists>bin key buf. atob blob = Inr bin \<and>
      deriveKey P pw (take 32 (map ucast bin)) = Inr key \<and>
      AES_GCM_decrypt P key (take 12 (drop 32 (map ucast bin))) (drop 44 (map ucast bin)) = Inr buf \<and>
      decryptData P blob pw = Inr (TextDecoder_decode buf))"
  by (auto simp add: decryptData_def SALT_LENGTH_def IV_LENGTH_def Let_def split: sum.splits)

text \<open>
  C4. For every blob and every password, \<open>decryptData\<close> either raises the one error
  'Decryption failed - invalid password or corrupted data', which \<open>getEncryptedVault\<close>
  reports as 'Invalid master password' whatever the cause, or every step has succeeded
  (the base64 text decoded, the key derived, the cipher accepted the tag) and the result
  is the decoded output of the cipher: no plaintext is returned on a failure.
\<close>

theorem decryptData_failure_generic:
  "(decryptData P blob pw = Inl (Error ''Decryption failed - invalid password or corrupted data'') \<and>
    (\<forall>st user. getItemAsync st (VAULT_PREFIX @ user) = Inr (Some blob) \<longrightarrow> blob \<noteq> [] \<longrightarrow>
        getEncryptedVault P st user pw = Inl (Error ''Invalid master password''))) \<or>
   (\<exists>bin key buf. atob blob = Inr bin \<and>
      deriveKey P pw (take 32 (map ucast bin)) = Inr key \<and>
      AES_GCM_decrypt P key (take 12 (drop 32 (map ucast bin))) (drop 44 (map ucast bin)) = Inr buf \<and>
      decryptData P blob pw = Inr (TextDecoder_decode buf))"
proof -
  have "decryptData P blob pw = Inl decryption_failed \<Longrightarrow>
        getItemAsync st (VAULT_PREFIX @ user) = Inr (Some blob) \<Longrightarrow> blob \<noteq> [] \<Longrightarrow>
        getEncryptedVault P st user pw = Inl (Error ''Invalid master password'')" for st user
    by (simp add: getEncryptedVault_def vault_error_decryption_failed)
  then show ?thesis
    using decryptData_cases[of P blob pw] unfolding decryption_failed_def by blast
qed

lemma base64_encode_length: "length (base64_encode ns) mod 4 = 0"
  using total_length[of ns] by (simp add: base64_encode_shape)

lemma base64_encode_filter:
  assumes "\<forall>a \<in> set ns. a < 256"
  shows "filter (\<lambda>c. \<not> is_ascii_whitespace c) (base64_encode ns) = base64_encode ns"
  unfolding base64_encode_shape
  using body_plain[OF sextets_bound[OF assms]] by (rule filter_encoded)

lemma atob_corrupted: "atob (encode_combined P bs @ str ''!'') = Inl (Error ''InvalidCharacterError'')"
proof -
  let ?e = "base64_encode (map unat bs)"
  have f: "filter (\<lambda>c. \<not> is_ascii_whitespace c) (?e @ str ''!'') = ?e @ str ''!''"
    using base64_encode_filter[OF unat_byte_bound[of bs]]
    by (simp add: str_def is_ascii_whitespace_def)
  have l: "length (?e @ str ''!'') mod 4 = 1"
    using base64_encode_length[of "map unat bs"] by (simp add: str_def mod_Suc)
  then have s: "strip_padding (?e @ str ''!'') = ?e @ str ''!''"
    by (simp add: strip_padding_def)
  show ?thesis
    unfolding encode_combined_eq atob_def f s Let_def using l by simp
qed

lemma encode_combined_nonempty: "bs \<noteq> [] \<Longrightarrow> encode_combined P bs \<noteq> []"
  unfolding encode_combined_eq by (cases "map unat bs" rule: base64_encode.cases) auto

lemmas text_eval = TextEncoder_encode_def str_def is_high_surrogate_def is_low_surrogate_def
  utf8_encode_cp_def

lemma enc_hunter2: "TextEncoder_encode (str ''hunter2'') = [104, 117, 110, 116, 101, 114, 50]"
  by (simp add: text_eval)

lemma enc_wrong: "TextEncoder_encode (str ''wrong'') = [119, 114, 111, 110, 103]"
  by (simp add: text_eval)

lemma test_deriveKey: "deriveKey test_platform pw salt = Inr (take 32 (TextEncoder_encode pw @ salt @ replicate 32 0))"
  by (simp add: deriveKey_def test_platform_def test_PBKDF2_def)

lemma test_decrypt_platform: "AES_GCM_decrypt test_platform = test_decrypt"
  by (simp add: test_platform_def)

lemma keys_differ:
  "take 32 (TextEncoder_encode (str ''wrong'') @ s) \<noteq>
   take 32 (TextEncoder_encode (str ''hunter2'') @ t)"
  by (simp add: enc_hunter2 enc_wrong)

lemma wrong_password_fails:
  assumes "length salt = 32" "length iv = 12"
  shows "decryptData test_platform
     (encode_combined test_platform (salt @ iv @ dat @
        take 32 (TextEncoder_encode (str ''hunter2'') @ salt @ replicate 32 0)))
     (str ''wrong'') = Inl decryption_failed"
proof -
  have "length (take 32 (TextEncoder_encode (str ''hunter2'') @ salt @ replicate (32::nat) (0::byte))) = 32"
    by simp
  then show ?thesis
    using assms keys_differ[of "salt @ replicate 32 0" "salt @ replicate 32 0"]
    by (simp only: decryptData_encoded test_deriveKey test_decrypt_platform test_decrypt_tagged)
       simp
qed

text \<open>
  Both causes on the reference platform: a wrong password on a valid blob, and a valid
  blob with a character appended, give the same error, in \<open>decryptData\<close> and in
  \<open>getEncryptedVault\<close>.
\<close>

theorem decryptData_failure_generic_witness:
  "case fst (encryptData test_platform (\<lambda>i. of_nat i) (str ''secret'') (str ''hunter2'')) of
     Inl e \<Rightarrow> False
   | Inr blob \<Rightarrow>
       decryptData test_platform blob (str ''wrong'') =
         Inl (Error ''Decryption failed - invalid password or corrupted data'') \<and>
       decryptData test_platform (blob @ str ''!'') (str ''hunter2'') =
         Inl (Error ''Decryption failed - invalid password or corrupted data'') \<and>
       getEncryptedVault test_platform
         \<lparr>items = [VAULT_PREFIX @ str ''alice'' \<mapsto> blob], rejects = (\<lambda>k. None)\<rparr>
         (str ''alice'') (str ''wrong'') = Inl (Error ''Invalid master password'') \<and>
       getEncryptedVault test_platform
         \<lparr>items = [VAULT_PREFIX @ str ''alice'' \<mapsto> blob @ str ''!''], rejects = (\<lambda>k. None)\<rparr>
         (str ''alice'') (str ''hunter2'') = Inl (Error ''Invalid master password'')"
proof -
  let ?salt = "map (\<lambda>i. of_nat i :: byte) [0..<32]"
  let ?iv = "map (\<lambda>i. of_nat (i + 32) :: byte) [0..<12]"
  let ?blob = "encode_combined test_platform (?salt @ ?iv @ TextEncoder_encode (str ''secret'') @
      take 32 (TextEncoder_encode (str ''hunter2'') @ ?salt @ replicate 32 0))"
  have e: "fst (encryptData test_platform (\<lambda>i. of_nat i) (str ''secret'') (str ''hunter2'')) = Inr ?blob"
    by (simp add: test_encryptData)
  have w: "decryptData test_platform ?blob (str ''wrong'') = Inl decryption_failed"
    by (rule wrong_password_fails) simp_all
  have c: "decryptData test_platform (?blob @ str ''!'') (str ''hunter2'') = Inl decryption_failed"
    by (simp add: decryptData_def atob_corrupted)
  have n: "?blob \<noteq> []" "?blob @ str ''!'' \<noteq> []"
    by (simp_all add: encode_combined_nonempty)
  have g1: "getItemAsync \<lparr>items = [VAULT_PREFIX @ str ''alice'' \<mapsto> b], rejects = (\<lambda>k. None)\<rparr>
      (VAULT_PREFIX @ str ''alice'') = Inr (Some b)" for b
    by (simp add: getItemAsync_def)
  have "getEncryptedVault test_platform
         \<lparr>items = [VAULT_PREFIX @ str ''alice'' \<mapsto> ?blob], rejects = (\<lambda>k. None)\<rparr>
         (str ''alice'') (str ''wrong'') = Inl (Error ''Invalid master password'')"
    using decryptData_failure_generic[of test_platform ?blob "str ''wrong''"] w g1 n(1)
    by (auto simp add: decryption_failed_def)
  moreover have "getEncryptedVault test_platform
         \<lparr>items = [VAULT_PREFIX @ str ''alice'' \<mapsto> ?blob @ str ''!''], rejects = (\<lambda>k. None)\<rparr>
         (str ''alice'') (str ''hunter2'') = Inl (Error ''Invalid master password'')"
    using decryptData_failure_generic[of test_platform "?blob @ str ''!''" "str ''hunter2''"] c g1 n(2)
    by (auto simp add: decryption_failed_def)
  ultimately show ?thesis
    using w c unfolding e by (simp add: decryption_failed_def)
qed

subsection \<open>Sealing and storing the vault\<close>

lemma shift_upt: "map (\<lambda>i. i + n) [a..<b] = [a + n..<b + n]"
  by (induction b) simp_all

lemma shifted_bytes: "map (\<lambda>i. rng (i + n)) [a..<b] = map rng [a + n..<b + n]"
proof -
  have "map rng (map (\<lambda>i. i + n) [a..<b]) = map rng [a + n..<b + n]"
    by (simp only: shift_upt)
  then show ?thesis by (simp add: comp_def)
qed

lemma nonce_bytes: "map (\<lambda>i. rng (i + 32)) [0..<12] = map rng [32..<44]"
  using shifted_bytes[of rng 32 0 12] by simp


lemma salt_and_nonce:
  "map rng [0..<32] @ map rng [32..<44] = map rng [0..<44]"
  "map rng [44..<76] @ map rng [76..<88] = map rng [44..<88]"
proof -
  have a: "[0..<32] @ [32..<44] = [0..<44::nat]"
    using upt_add_eq_append[of 0 32 12] by simp
  have b: "[44..<76] @ [76..<88] = [44..<88::nat]"
    using upt_add_eq_append[of 44 76 12] by simp
  show "map rng [0..<32] @ map rng [32..<44] = map rng [0..<44]"
    unfolding map_append[symmetric] a ..
  show "map rng [44..<76] @ map rng [76..<88] = map rng [44..<88]"
    unfolding map_append[symmetric] b ..
qed

lemma drawn_bytes: "map rng [0..<32] @ map (\<lambda>i. rng (i + 32)) [0..<12] = map rng [0..<44]"
  by (simp only: nonce_bytes salt_and_nonce)

lemma setItemAsync_Inr:
  "setItemAsync st k v = Inr st' \<Longrightarrow> rejects st k = None \<and> st' = st\<lparr>items := (items st)(k \<mapsto> v)\<rparr>"
  by (auto simp add: setItemAsync_def split: option.splits)

lemma storeEncryptedVault_Inr:
  assumes "storeEncryptedVault P now rng st user es mp = (Inr (), st', rng')"
  shows "\<exists>blob. encryptData P rng
            (JSON_stringify P \<lparr>vd_entries = es, lastModified = now, version = str ''1.0''\<rparr>) mp =
            (Inr blob, rng') \<and>
          rejects st (VAULT_PREFIX @ user) = None \<and>
          st' = st\<lparr>items := (items st)(VAULT_PREFIX @ user \<mapsto> blob)\<rparr>"
  using assms
  by (auto simp add: storeEncryptedVault_def Let_def split: prod.splits sum.splits
        dest: setItemAsync_Inr)

lemma encryptData_rng:
  assumes "encryptData P rng p m = (r, rng')"
  shows "rng' = (\<lambda>i. rng (i + 44))"
  using assms
  by (auto simp add: encryptData_def getRandomValues_def SALT_LENGTH_def IV_LENGTH_def Let_def
        add.assoc split: sum.splits)

text \<open>
  Every call of \<open>storeEncryptedVault\<close> takes 44 bytes from the random source, whether it
  succeeds or not.
\<close>

lemma storeEncryptedVault_rng:
  "snd (snd (storeEncryptedVault P now rng st user es mp)) = (\<lambda>i. rng (i + 44))"
  by (auto simp add: storeEncryptedVault_def Let_def split: prod.splits sum.splits
        dest: encryptData_rng)

lemma encryptData_blob:
  assumes "encryptData P rng p m = (Inr blob, rng')"
  shows "\<exists>ct. blob = encode_combined P (map rng [0..<44] @ ct)"
  using encryptData_Inr[OF assms] drawn_bytes[of rng]
  by (metis append.assoc)


text \<open>
  What a save does when the key derivation, the cipher and the store accept: the salt is
  the first 32 bytes of the random source, the nonce the next 12, and the blob stored
  under the user's key is the base64 text of salt, nonce and ciphertext.
\<close>

lemma encryptData_succeeds:
  assumes "deriveKey P m (map rng [0..<32]) = Inr key"
    and "AES_GCM_encrypt P key (map rng [32..<44]) (TextEncoder_encode p) = Inr ct"
  shows "encryptData P rng p m =
     (Inr (encode_combined P (map rng [0..<32] @ map rng [32..<44] @ ct)), (\<lambda>i. rng (i + 44)))"
  using assms
  by (simp add: encryptData_def getRandomValues_def SALT_LENGTH_def IV_LENGTH_def Let_def
        nonce_bytes add.assoc)

lemma storeEncryptedVault_succeeds:
  assumes "deriveKey P mp (map rng [0..<32]) = Inr key"
    and "AES_GCM_encrypt P key (map rng [32..<44])
           (TextEncoder_encode
              (JSON_stringify P \<lparr>vd_entries = es, lastModified = now, version = str ''1.0''\<rparr>)) =
         Inr ct"
    and "rejects st (VAULT_PREFIX @ user) = None"
  shows "storeEncryptedVault P now rng st user es mp =
     (Inr (),
      st\<lparr>items := (items st)(VAULT_PREFIX @ user \<mapsto>
            encode_combined P (map rng [0..<32] @ map rng [32..<44] @ ct))\<rparr>,
      (\<lambda>i. rng (i + 44)))"
  by (simp add: storeEncryptedVault_def Let_def encryptData_succeeds[OF assms(1,2)]
        setItemAsync_def assms(3))

text \<open>Conversely, a save that succeeds has passed these three steps.\<close>

lemma storeEncryptedVault_success:
  assumes "storeEncryptedVault P now rng st user es mp = (Inr (), st', rng')"
  shows "\<exists>key ct. deriveKey P mp (map rng [0..<32]) = Inr key \<and>
           AES_GCM_encrypt P key (map rng [32..<44])
             (TextEncoder_encode
                (JSON_stringify P \<lparr>vd_entries = es, lastModified = now, version = str ''1.0''\<rparr>)) =
           Inr ct \<and>
           rejects st (VAULT_PREFIX @ user) = None"
proof -
  from storeEncryptedVault_Inr[OF assms] obtain blob where
    e: "encryptData P rng
          (JSON_stringify P \<lparr>vd_entries = es, lastModified = now, version = str ''1.0''\<rparr>) mp =
        (Inr blob, rng')" and
    r: "rejects st (VAULT_PREFIX @ user) = None"
    by blast
  from encryptData_Inr[OF e] r show ?thesis
    unfolding nonce_bytes by blast
qed

lemma load_after_store:
  assumes inv: "decrypt_inverts_encrypt P"
    and js: "json_round_trip P \<lparr>vd_entries = es, lastModified = now, version = str ''1.0''\<rparr>"
    and st: "storeEncryptedVault P now rng st user es mp = (Inr (), st', rng')"
  shows "\<exists>blob. items st' (VAULT_PREFIX @ user) = Some blob \<and>
           encryptData P rng
             (JSON_stringify P \<lparr>vd_entries = es, lastModified = now, version = str ''1.0''\<rparr>) mp =
             (Inr blob, rng') \<and>
           decryptData P blob mp =
             Inr (JSON_stringify P \<lparr>vd_entries = es, lastModified = now, version = str ''1.0''\<rparr>) \<and>
           getEncryptedVault P st' user mp = Inr es"
proof -
  let ?ser = "JSON_stringify P \<lparr>vd_entries = es, lastModified = now, version = str ''1.0''\<rparr>"
  from storeEncryptedVault_Inr[OF st] obtain blob where
    e: "encryptData P rng ?ser mp = (Inr blob, rng')" and
    r: "rejects st (VAULT_PREFIX @ user) = None" and
    s: "st' = st\<lparr>items := (items st)(VAULT_PREFIX @ user \<mapsto> blob)\<rparr>"
    by blast
  have d: "decryptData P blob mp = Inr ?ser"
    using js
    by (intro decrypt_after_encrypt_wellformed[OF inv e]) (simp_all add: json_round_trip_def)
  from encryptData_blob[OF e] obtain ct where "blob = encode_combined P (map rng [0..<44] @ ct)"
    by blast
  then have n: "blob \<noteq> []" by (simp add: encode_combined_nonempty)
  have g: "getItemAsync st' (VAULT_PREFIX @ user) = Inr (Some blob)"
    using r s by (simp add: getItemAsync_def)
  have "getEncryptedVault P st' user mp = Inr es"
    using js n by (simp add: getEncryptedVault_def g d json_round_trip_def)
  then show ?thesis using s e d by simp
qed

text \<open>
  The blob a successful save has stored opens under the same password, and the vault loads
  from it.
\<close>

lemma stored_vault_loads:
  assumes inv: "decrypt_inverts_encrypt P"
    and js: "json_round_trip P \<lparr>vd_entries = es, lastModified = now, version = str ''1.0''\<rparr>"
    and k: "deriveKey P mp (map rng [0..<32]) = Inr key"
    and c: "AES_GCM_encrypt P key (map rng [32..<44])
           (TextEncoder_encode
              (JSON_stringify P \<lparr>vd_entries = es, lastModified = now, version = str ''1.0''\<rparr>)) =
         Inr ct"
    and r: "rejects st (VAULT_PREFIX @ user) = None"
  shows "decryptData P (encode_combined P (map rng [0..<32] @ map rng [32..<44] @ ct)) mp =
           Inr (JSON_stringify P \<lparr>vd_entries = es, lastModified = now, version = str ''1.0''\<rparr>)"
    and "getEncryptedVault P
           (st\<lparr>items := (items st)(VAULT_PREFIX @ user \<mapsto>
                 encode_combined P (map rng [0..<32] @ map rng [32..<44] @ ct))\<rparr>) user mp =
         Inr es"
proof -
  note s = storeEncryptedVault_succeeds[OF k c r]
  from load_after_store[OF inv js s]
  show "decryptData P (encode_combined P (map rng [0..<32] @ map rng [32..<44] @ ct)) mp =
           Inr (JSON_stringify P \<lparr>vd_entries = es, lastModified = now, version = str ''1.0''\<rparr>)"
    and "getEncryptedVault P
           (st\<lparr>items := (items st)(VAULT_PREFIX @ user \<mapsto>
                 encode_combined P (map rng [0..<32] @ map rng [32..<44] @ ct))\<rparr>) user mp =
         Inr es"
    by auto
qed

subsection \<open>The reference platform\<close>

lemma test_setItemAsync:
  "setItemAsync \<lparr>items = m, rejects = (\<lambda>k. None)\<rparr> k v = Inr \<lparr>items = m(k \<mapsto> v), rejects = (\<lambda>k. None)\<rparr>"
  by (simp add: setItemAsync_def)

lemma test_encryptData_blob:
  "encryptData test_platform rng p m = (Inr (test_blob rng p m), (\<lambda>i. rng (i + 32 + 12)))"
  by (simp add: test_encryptData test_blob_def)

lemma test_stringify_platform: "JSON_stringify test_platform = test_stringify"
  by (simp add: test_platform_def)

lemma test_parse_platform: "JSON_parse test_platform = test_parse"
  by (simp add: test_platform_def)

lemma test_storeEncryptedVault:
  "storeEncryptedVault test_platform now rng \<lparr>items = m, rejects = (\<lambda>k. None)\<rparr> user es mp =
     (Inr (),
      \<lparr>items = m(VAULT_PREFIX @ user \<mapsto>
         test_blob rng (test_stringify \<lparr>vd_entries = es, lastModified = now, version = str ''1.0''\<rparr>) mp),
       rejects = (\<lambda>k. None)\<rparr>,
      (\<lambda>i. rng (i + 32 + 12)))"
  by (simp add: storeEncryptedVault_def test_encryptData_blob test_setItemAsync Let_def
        test_stringify_platform)

lemma test_encrypt_platform:
  "AES_GCM_encrypt test_platform (take 32 (pw @ salt @ replicate 32 0)) iv dat =
     Inr (dat @ take 32 (pw @ salt @ replicate 32 0))"
  by (simp add: test_platform_def test_encrypt_def)

lemma unary_prefix:
  "takeWhile (\<lambda>c. c = (0x23 :: 16 word)) (replicate n 0x23 @ 0x3A # r) = replicate n 0x23"
  by (induction n) simp_all

lemma test_read_write_string: "test_read_string (test_write_string s @ r) = (s, r)"
  by (simp add: test_read_string_def test_write_string_def unary_prefix Let_def)

lemma test_read_write_entry: "test_read_entry (test_write_entry e @ r) = (e, r)"
  by (simp add: test_read_entry_def test_write_entry_def test_read_write_string)

lemma test_read_write_entries:
  "test_read_entries (length es) (concat (map test_write_entry es) @ r) = (es, r)"
  by (induction es) (simp_all add: test_read_write_entry)

text \<open>The reference parser reads back what the reference serialiser has written.\<close>

lemma test_parse_stringify: "test_parse (test_stringify vd) = Inr (JValue (Some (vd_entries vd)))"
proof -
  have s: "test_stringify vd =
      replicate (length (vd_entries vd)) 0x23 @ 0x3A #
        (concat (map test_write_entry (vd_entries vd)) @
         (test_write_string (lastModified vd) @ test_write_string (version vd)))"
    by (simp add: test_stringify_def)
  have w: "test_read_string (test_write_string a @ test_write_string b) = (a, test_write_string b)"
          "test_read_string (test_write_string b) = (b, [])" for a b
    using test_read_write_string[of a "test_write_string b"] test_read_write_string[of b "[]"]
    by simp_all
  show ?thesis
    unfolding test_parse_def Let_def
    unfolding s unary_prefix
    by (simp add: test_read_write_entries w)
       (simp add: test_stringify_def)
qed

lemma plain_not_surrogate:
  "c < 0xD800 \<Longrightarrow> \<not> is_high_surrogate c \<and> \<not> is_low_surrogate c"
  by (simp add: is_high_surrogate_def is_low_surrogate_def word_less_nat_alt word_le_nat_alt)

lemma isWellFormed_plain: "\<forall>c \<in> set s. c < 0xD800 \<Longrightarrow> isWellFormed s"
  by (induction s rule: isWellFormed.induct) (simp_all add: plain_not_surrogate)

lemma test_stringify_no_BOM: "\<not> starts_with_BOM (test_stringify vd)"
  by (cases "vd_entries vd") (simp_all add: test_stringify_def starts_with_BOM_def)

lemma test_json_round_trip:
  "isWellFormed (test_stringify vd) \<Longrightarrow> json_round_trip test_platform vd"
  by (simp add: json_round_trip_def test_stringify_platform test_parse_platform
        test_parse_stringify test_stringify_no_BOM)

lemmas stringify_eval = test_stringify_def test_write_entry_def test_write_string_def
  test_entry_def str_def

lemma test_json_round_trip_0:
  "json_round_trip test_platform
     \<lparr>vd_entries = [], lastModified = str ''2024-06-01T00:00:00.000Z'', version = str ''1.0''\<rparr>"
  by (rule test_json_round_trip, rule isWellFormed_plain) (simp add: stringify_eval)

lemma test_json_round_trip_1:
  "json_round_trip test_platform
     \<lparr>vd_entries = [test_entry], lastModified = str ''2024-06-01T00:00:00.000Z'',
      version = str ''1.0''\<rparr>"
  by (rule test_json_round_trip, rule isWellFormed_plain) (simp add: stringify_eval)


lemma test_unlocked_world_sel:
  "currentUser (auth test_unlocked_world) = Some test_user"
  "masterPassword (vault test_unlocked_world) = Some (str ''hunter2'')"
  "entries (vault test_unlocked_world) = [test_entry]"
  "secure_store test_unlocked_world = \<lparr>items = Map.empty, rejects = (\<lambda>k. None)\<rparr>"
  "random test_unlocked_world = (\<lambda>i. of_nat i)"
  "user_username test_user = str ''alice''"
  by (simp_all add: test_unlocked_world_def test_world_def test_user_def)

subsection \<open>The vault operations\<close>

lemma update_missing_id:
  "i \<notin> entry_id ` set es \<Longrightarrow>
   map (\<lambda>entry. if entry_id entry = i then spread_update entry updates now else entry) es = es"
  by (induction es) auto

lemma delete_missing_id:
  "i \<notin> entry_id ` set es \<Longrightarrow> filter (\<lambda>entry. entry_id entry \<noteq> i) es = es"
  by (induction es) auto

lemma dispatch_missing_id:
  assumes "i \<notin> entry_id ` set (entries (vault w))"
  shows "dispatch now (UPDATE_ENTRY i updates) w = w" "dispatch now (DELETE_ENTRY i) w = w"
  using assms by (simp_all add: dispatch_def update_missing_id delete_missing_id)

lemma saveVault_vault: "vault (snd (saveVault P now caller w)) = vault w"
  by (auto simp add: saveVault_def split: option.splits prod.splits)

text \<open>
  \<open>saveVault\<close> refuses, and touches nothing, when no user is logged in or the master
  password is absent or empty.
\<close>

lemma saveVault_guards:
  "currentUser (auth w) = None \<Longrightarrow> saveVault P now w w = (Inl (Error ''No user logged in''), w)"
  "currentUser (auth w) = Some u \<Longrightarrow> masterPassword (vault w) = None \<or> masterPassword (vault w) = Some [] \<Longrightarrow>
   saveVault P now w w = (Inl (Error ''Vault is locked''), w)"
  by (auto simp add: saveVault_def)

text \<open>When the store or the cipher refuses, \<open>saveVault\<close> raises their error.\<close>

lemma saveVault_store_rejects:
  assumes "currentUser (auth w) = Some u" "masterPassword (vault w) = Some mp" "mp \<noteq> []"
    and "rejects (secure_store w) (VAULT_PREFIX @ user_username u) = Some e"
  shows "\<exists>e'. fst (saveVault P now w w) = Inl e'"
  using assms
  by (auto simp add: saveVault_def storeEncryptedVault_def setItemAsync_def Let_def
        split: prod.splits sum.splits)

lemma saveVault_persists:
  assumes "currentUser (auth w) = Some u" "masterPassword (vault w) = Some mp" "mp \<noteq> []"
    and "deriveKey P mp (map (random w) [0..<32]) = Inr key"
    and "AES_GCM_encrypt P key (map (random w) [32..<44])
           (TextEncoder_encode
              (JSON_stringify P
                 \<lparr>vd_entries = entries (vault w), lastModified = now, version = str ''1.0''\<rparr>)) =
         Inr ct"
    and "rejects (secure_store w) (VAULT_PREFIX @ user_username u) = None"
  shows "saveVault P now w w =
     (Inr (),
      w\<lparr>secure_store := (secure_store w)
           \<lparr>items := (items (secure_store w))(VAULT_PREFIX @ user_username u \<mapsto>
              encode_combined P (map (random w) [0..<32] @ map (random w) [32..<44] @ ct))\<rparr>,
        random := (\<lambda>n. random w (n + 44))\<rparr>)"
  using assms(1-3)
  by (simp add: saveVault_def storeEncryptedVault_succeeds[OF assms(4-6)])

text \<open>
  C10 (amended). When the \<open>id\<close> matches no entry, \<open>updateEntry(id, updates)\<close> and
  \<open>deleteEntry(id)\<close> leave the vault state as it is and do exactly what \<open>saveVault\<close> does
  on the unchanged state, so the caller sees nothing of the missing \<open>id\<close>. With a user
  logged in and a non-empty master password, when the key derivation and the cipher
  succeed on the serialised unchanged list (salt: bytes 0..31 of the random source, nonce:
  bytes 32..43) and the store accepts the user's key, both return without an error and
  the store then holds, under the user's key, the base64 text of salt, nonce and
  ciphertext, the other keys untouched, and the random source has advanced by 44 bytes;
  on a platform whose decryption inverts its encryption and whose JSON round-trips the
  container, that blob decrypts under the master password to the serialised container and
  \<open>getEncryptedVault\<close> returns the unchanged list from the store.
\<close>

theorem update_delete_missing_id:
  assumes "i \<notin> entry_id ` set (entries (vault w))"
  shows "updateEntry P now w i updates = saveVault P now w w \<and>
         deleteEntry P now w i = saveVault P now w w \<and>
         vault (snd (updateEntry P now w i updates)) = vault w \<and>
         vault (snd (deleteEntry P now w i)) = vault w \<and>
         (currentUser (auth w) = Some u \<and> masterPassword (vault w) = Some mp \<and> mp \<noteq> [] \<and>
          deriveKey P mp (map (random w) [0..<32]) = Inr key \<and>
          AES_GCM_encrypt P key (map (random w) [32..<44])
            (TextEncoder_encode
               (JSON_stringify P
                  \<lparr>vd_entries = entries (vault w), lastModified = now, version = str ''1.0''\<rparr>)) =
            Inr ct \<and>
          rejects (secure_store w) (VAULT_PREFIX @ user_username u) = None \<longrightarrow>
          (let blob = encode_combined P (map (random w) [0..<32] @ map (random w) [32..<44] @ ct);
               w' = w\<lparr>secure_store := (secure_store w)
                         \<lparr>items := (items (secure_store w))(VAULT_PREFIX @ user_username u \<mapsto> blob)\<rparr>,
                       random := (\<lambda>n. random w (n + 44))\<rparr>
           in updateEntry P now w i updates = (Inr (), w') \<and>
              deleteEntry P now w i = (Inr (), w') \<and>
              (decrypt_inverts_encrypt P \<and>
               json_round_trip P
                 \<lparr>vd_entries = entries (vault w), lastModified = now, version = str ''1.0''\<rparr> \<longrightarrow>
               decryptData P blob mp =
                 Inr (JSON_stringify P
                        \<lparr>vd_entries = entries (vault w), lastModified = now, version = str ''1.0''\<rparr>) \<and>
               getEncryptedVault P (secure_store w') (user_username u) mp =
                 Inr (entries (vault w)))))"
proof -
  have eq: "updateEntry P now w i updates = saveVault P now w w"
    "deleteEntry P now w i = saveVault P now w w"
    using assms by (simp_all add: updateEntry_def deleteEntry_def dispatch_missing_id)
  have v: "vault (snd (saveVault P now w w)) = vault w"
    by (rule saveVault_vault)
  have p: "saveVault P now w w =
     (Inr (),
      w\<lparr>secure_store := (secure_store w)
           \<lparr>items := (items (secure_store w))(VAULT_PREFIX @ user_username u \<mapsto>
              encode_combined P (map (random w) [0..<32] @ map (random w) [32..<44] @ ct))\<rparr>,
        random := (\<lambda>n. random w (n + 44))\<rparr>)"
    if "currentUser (auth w) = Some u" "masterPassword (vault w) = Some mp" "mp \<noteq> []"
      "deriveKey P mp (map (random w) [0..<32]) = Inr key"
      "AES_GCM_encrypt P key (map (random w) [32..<44])
         (TextEncoder_encode
            (JSON_stringify P
               \<lparr>vd_entries = entries (vault w), lastModified = now, version = str ''1.0''\<rparr>)) =
       Inr ct"
      "rejects (secure_store w) (VAULT_PREFIX @ user_username u) = None"
    using that by (rule saveVault_persists)
  have l: "decryptData P
        (encode_combined P (map (random w) [0..<32] @ map (random w) [32..<44] @ ct)) mp =
      Inr (JSON_stringify P
             \<lparr>vd_entries = entries (vault w), lastModified = now, version = str ''1.0''\<rparr>) \<and>
      getEncryptedVault P
        ((secure_store w)
           \<lparr>items := (items (secure_store w))(VAULT_PREFIX @ user_username u \<mapsto>
              encode_combined P (map (random w) [0..<32] @ map (random w) [32..<44] @ ct))\<rparr>)
        (user_username u) mp = Inr (entries (vault w))"
    if "decrypt_inverts_encrypt P"
      "json_round_trip P
         \<lparr>vd_entries = entries (vault w), lastModified = now, version = str ''1.0''\<rparr>"
      "deriveKey P mp (map (random w) [0..<32]) = Inr key"
      "AES_GCM_encrypt P key (map (random w) [32..<44])
         (TextEncoder_encode
            (JSON_stringify P
               \<lparr>vd_entries = entries (vault w), lastModified = now, version = str ''1.0''\<rparr>)) =
       Inr ct"
      "rejects (secure_store w) (VAULT_PREFIX @ user_username u) = None"
    using stored_vault_loads[OF that] by simp
  show ?thesis
    unfolding eq v Let_def using p l by simp
qed

text \<open>
  An unlocked world with one entry 'a', on the reference platform: updating and deleting
  the id 'b' succeed, the entry list is unchanged, and the store then holds a blob from
  which the vault loads with that list.
\<close>

theorem update_delete_missing_id_witness:
  "str ''b'' \<notin> entry_id ` set (entries (vault test_unlocked_world)) \<and>
   (case updateEntry test_platform (str ''2024-06-01T00:00:00.000Z'') test_unlocked_world (str ''b'')
           \<lparr>p_id = None, p_site = None, p_username = None, p_password = Some (str ''new''),
            p_createdAt = None, p_updatedAt = None\<rparr> of
      (r, w') \<Rightarrow>
        r = Inr () \<and> entries (vault w') = [test_entry] \<and>
        items (secure_store w') (VAULT_PREFIX @ str ''alice'') \<noteq> None \<and>
        getEncryptedVault test_platform (secure_store w') (str ''alice'') (str ''hunter2'') =
          Inr [test_entry] \<and>
        deleteEntry test_platform (str ''2024-06-01T00:00:00.000Z'') test_unlocked_world (str ''b'') =
          (r, w'))"
proof -
  let ?now = "str ''2024-06-01T00:00:00.000Z''"
  let ?w = test_unlocked_world
  let ?ups = "\<lparr>p_id = None, p_site = None, p_username = None, p_password = Some (str ''new''),
            p_createdAt = None, p_updatedAt = None\<rparr>"
  let ?salt = "map (random ?w) [0..<32]"
  let ?key = "take 32 (TextEncoder_encode (str ''hunter2'') @ ?salt @ replicate 32 0)"
  let ?ser = "TextEncoder_encode (JSON_stringify test_platform
      \<lparr>vd_entries = entries (vault ?w), lastModified = ?now, version = str ''1.0''\<rparr>)"
  have i: "str ''b'' \<notin> entry_id ` set (entries (vault ?w))"
    by (simp add: test_unlocked_world_def test_entry_def str_def)
  have prem: "currentUser (auth ?w) = Some test_user \<and>
      masterPassword (vault ?w) = Some (str ''hunter2'') \<and> str ''hunter2'' \<noteq> [] \<and>
      deriveKey test_platform (str ''hunter2'') ?salt = Inr ?key \<and>
      AES_GCM_encrypt test_platform ?key (map (random ?w) [32..<44]) ?ser = Inr (?ser @ ?key) \<and>
      rejects (secure_store ?w) (VAULT_PREFIX @ user_username test_user) = None"
  proof (intro conjI)
    show "deriveKey test_platform (str ''hunter2'') ?salt = Inr ?key"
      by (rule test_deriveKey)
    show "AES_GCM_encrypt test_platform ?key (map (random ?w) [32..<44]) ?ser = Inr (?ser @ ?key)"
      by (rule test_encrypt_platform)
  qed (simp_all add: test_unlocked_world_sel str_def)
  have js: "decrypt_inverts_encrypt test_platform \<and>
      json_round_trip test_platform
        \<lparr>vd_entries = entries (vault ?w), lastModified = ?now, version = str ''1.0''\<rparr>"
    by (simp add: test_platform_inverts test_unlocked_world_sel test_json_round_trip_1)
  note c = update_delete_missing_id[OF i, where P = test_platform and now = ?now and updates = ?ups
      and u = test_user and mp = "str ''hunter2''" and key = ?key and ct = "?ser @ ?key"]
  note d = mp[OF c[THEN conjunct2, THEN conjunct2, THEN conjunct2, THEN conjunct2] prem]
  from d js i show ?thesis
    by (simp add: Let_def test_unlocked_world_sel)
qed

text \<open>
  C10 as stated fails: not every unlocked vault completes without an error. On the
  reference platform \<open>unlockVault('')\<close> succeeds when no vault is stored, the state is then
  unlocked with the empty string as its master password, and \<open>updateEntry\<close> and
  \<open>deleteEntry\<close> with an \<open>id\<close> that matches no entry raise 'Vault is locked', since
  \<open>saveVault\<close> takes the empty string for a missing password.
\<close>

theorem update_delete_empty_master_password:
  "case unlockVault test_platform (str ''2024-06-01T00:00:00.000Z'') test_world [] of
     (r, w) \<Rightarrow>
       r = Inr () \<and> \<not> isLocked (vault w) \<and> masterPassword (vault w) = Some [] \<and>
       str ''b'' \<notin> entry_id ` set (entries (vault w)) \<and>
       updateEntry test_platform (str ''2024-06-01T00:00:00.000Z'') w (str ''b'')
         \<lparr>p_id = None, p_site = None, p_username = None, p_password = Some (str ''new''),
          p_createdAt = None, p_updatedAt = None\<rparr> = (Inl (Error ''Vault is locked''), w) \<and>
       deleteEntry test_platform (str ''2024-06-01T00:00:00.000Z'') w (str ''b'') =
         (Inl (Error ''Vault is locked''), w)"
  by (simp add: unlockVault_def getEncryptedVault_def getItemAsync_def test_world_def
        initialState_def dispatch_def updateEntry_def deleteEntry_def saveVault_def)

text \<open>
  C6 fails on the code. \<open>addEntry\<close> dispatches \<open>ADD_ENTRY\<close> before \<open>saveVault\<close> checks that
  the vault is unlocked: called on the locked initial state it raises 'Vault is locked',
  and the reducer's state is then locked, without a master secret, and holds the new
  entry.
\<close>

theorem addEntry_on_locked_vault:
  "vault_invariant (vault test_world) \<and>
   (case addEntry test_platform (str ''2024-06-01T00:00:00.000Z'') test_world
           \<lparr>ed_site = str ''example.com'', ed_username = str ''alice'', ed_password = str ''p@ss''\<rparr> of
      (r, w') \<Rightarrow>
        r = Inl (Error ''Vault is locked'') \<and> isLocked (vault w') \<and>
        masterPassword (vault w') = None \<and> length (entries (vault w')) = 1 \<and>
        \<not> vault_invariant (vault w'))"
  by (simp add: addEntry_def generateUniqueId_def saveVault_def dispatch_def test_world_def
        initialState_def vault_invariant_def fully_locked_def fully_unlocked_def Let_def)

lemma lockVault_unconditional:
  "vault (lockVault now w) = \<lparr>entries = [], isLocked = True, masterPassword = None\<rparr> \<and>
   fully_locked (vault (lockVault now w))"
  by (simp add: lockVault_def dispatch_def fully_locked_def)

lemma vaultReducer_invariant:
  assumes "vault_invariant s"
    and "(\<forall>e. a \<noteq> ADD_ENTRY e) \<and> (\<forall>es. a \<noteq> SET_ENTRIES es) \<or> fully_unlocked s"
  shows "vault_invariant (vaultReducer now s a)"
  using assms
  by (cases a) (auto simp add: vault_invariant_def fully_locked_def fully_unlocked_def)

text \<open>
  The other operations keep the invariant from every state, and \<open>addEntry\<close> keeps it from
  an unlocked state.
\<close>

lemma unlockVault_invariant:
  "vault_invariant (vault w) \<Longrightarrow> vault_invariant (vault (snd (unlockVault P now w mp)))"
  by (auto simp add: unlockVault_def dispatch_def vault_invariant_def fully_locked_def
        fully_unlocked_def split: option.splits sum.splits)

lemma lockVault_invariant: "vault_invariant (vault (lockVault now w))"
  by (simp add: lockVault_def dispatch_def vault_invariant_def fully_locked_def)

lemma updateEntry_invariant:
  "vault_invariant (vault w) \<Longrightarrow> vault_invariant (vault (snd (updateEntry P now w i updates)))"
  by (auto simp add: updateEntry_def saveVault_vault dispatch_def vault_invariant_def
        fully_locked_def fully_unlocked_def)

lemma deleteEntry_invariant:
  "vault_invariant (vault w) \<Longrightarrow> vault_invariant (vault (snd (deleteEntry P now w i)))"
  by (auto simp add: deleteEntry_def saveVault_vault dispatch_def vault_invariant_def
        fully_locked_def fully_unlocked_def)

lemma addEntry_invariant:
  "fully_unlocked (vault w) \<Longrightarrow> vault_invariant (vault (snd (addEntry P now w entryData)))"
  by (auto simp add: addEntry_def generateUniqueId_def saveVault_vault dispatch_def Let_def
        vault_invariant_def fully_unlocked_def)

lemma changeMasterPassword_invariant:
  "vault_invariant (vault w) \<Longrightarrow>
   vault_invariant (vault (snd (changeMasterPassword P now w old new)))"
  by (auto simp add: changeMasterPassword_def dispatch_def vault_invariant_def fully_locked_def
        fully_unlocked_def split: option.splits sum.splits prod.splits)

subsection \<open>Saving twice, changing the master password, and the unlock screen\<close>



lemma test_platform_rejects: "wrong_key_rejected test_platform"
  by (auto simp add: wrong_key_rejected_def test_platform_def test_encrypt_def
        test_decrypt_tagged split: if_splits)





lemma load_with_other_key:
  assumes rej: "wrong_key_rejected P"
    and st: "storeEncryptedVault P now rng st user es new = (Inr (), st', rng')"
    and ne: "deriveKey P old (map rng [0..<32]) \<noteq> deriveKey P new (map rng [0..<32])"
  shows "getEncryptedVault P st' user old = Inl (Error ''Invalid master password'')"
proof -
  let ?ser = "JSON_stringify P \<lparr>vd_entries = es, lastModified = now, version = str ''1.0''\<rparr>"
  let ?salt = "map rng [0..<32]" and ?iv = "map (\<lambda>i. rng (i + 32)) [0..<12]"
  from storeEncryptedVault_Inr[OF st] obtain blob where
    e: "encryptData P rng ?ser new = (Inr blob, rng')" and
    r: "rejects st (VAULT_PREFIX @ user) = None" and
    s: "st' = st\<lparr>items := (items st)(VAULT_PREFIX @ user \<mapsto> blob)\<rparr>"
    by blast
  from encryptData_Inr[OF e] obtain key ct where
    k: "deriveKey P new ?salt = Inr key" and
    c: "AES_GCM_encrypt P key ?iv (TextEncoder_encode ?ser) = Inr ct" and
    b: "blob = encode_combined P (?salt @ ?iv @ ct)"
    by blast
  have "AES_GCM_decrypt P key' ?iv ct \<noteq> Inr buf" if "deriveKey P old ?salt = Inr key'" for key' buf
  proof -
    from that ne k have "key' \<noteq> key" by auto
    with rej c obtain e where "AES_GCM_decrypt P key' ?iv ct = Inl e"
      unfolding wrong_key_rejected_def by blast
    then show ?thesis by simp
  qed
  then have d: "decryptData P blob old = Inl decryption_failed"
    unfolding b by (auto simp add: decryptData_encoded split: sum.splits)
  have n: "blob \<noteq> []" unfolding b by (simp add: encode_combined_nonempty)
  have g: "getItemAsync st' (VAULT_PREFIX @ user) = Inr (Some blob)"
    using r s by (simp add: getItemAsync_def)
  show ?thesis using n by (simp add: getEncryptedVault_def g d vault_error_decryption_failed)
qed









lemma test_keys_differ:
  "deriveKey test_platform (str ''hunter2'') salt \<noteq> deriveKey test_platform (str ''n3wpass'') salt"
  "deriveKey test_platform (str ''wrong'') salt \<noteq> deriveKey test_platform (str ''hunter2'') salt"
  by (simp_all add: test_deriveKey text_eval)




lemma test_saved:
  "storeEncryptedVault test_platform (str ''2024-06-01T00:00:00.000Z'') (\<lambda>i. of_nat i)
     \<lparr>items = Map.empty, rejects = (\<lambda>k. None)\<rparr> (str ''alice'') [] (str ''hunter2'') =
   (Inr (), test_saved_store, (\<lambda>i. of_nat (i + 32 + 12)))"
  by (simp add: test_storeEncryptedVault test_saved_store_def)

lemma test_load_right:
  "getEncryptedVault test_platform test_saved_store (str ''alice'') (str ''hunter2'') = Inr []"
  using load_after_store[OF test_platform_inverts test_json_round_trip_0 test_saved] by blast

lemma test_load_wrong:
  "getEncryptedVault test_platform test_saved_store (str ''alice'') (str ''wrong'') =
     Inl (Error ''Invalid master password'')"
  by (rule load_with_other_key[OF test_platform_rejects test_saved test_keys_differ(2)])

lemma test_saved_world_sel:
  "currentUser (auth test_saved_world) = Some test_user"
  "isLoggedIn (auth test_saved_world)"
  "secure_store test_saved_world = test_saved_store"
  "user_username test_user = str ''alice''"
  by (simp_all add: test_saved_world_def test_world_def test_user_def)

lemma unlock_wrong:
  "unlockVault test_platform t test_saved_world (str ''wrong'') =
     (Inl (Error ''Invalid master password''), test_saved_world)"
  by (simp add: unlockVault_def test_saved_world_sel test_load_wrong)

lemma unlock_right:
  "unlockVault test_platform t test_saved_world (str ''hunter2'') =
     (Inr (), dispatch t (UNLOCK_VAULT [] (str ''hunter2'')) test_saved_world)"
  by (simp add: unlockVault_def test_saved_world_sel test_load_right)

lemma not_blank: "\<not> blank (str ''wrong'')" "\<not> blank (str ''hunter2'')"
  by (simp_all add: blank_def StrWhiteSpaceChar_def str_def)

lemma handleUnlock_wrong:
  "handleUnlock test_platform t
     \<lparr>app_world = test_saved_world, route = r,
      screen = \<lparr>us_masterPassword = str ''wrong'', us_isUnlocking = u, us_attempts = n\<rparr>,
      dialogs = ds\<rparr> =
   \<lparr>app_world = test_saved_world, route = r,
    screen = \<lparr>us_masterPassword = [], us_isUnlocking = False, us_attempts = n + 1\<rparr>,
    dialogs = ds @ [if n + 1 \<ge> 3 then TooManyFailedAttempts else IncorrectPassword (3 - (n + 1))]\<rparr>"
  by (simp add: handleUnlock_def not_blank unlock_wrong Let_def)

lemma handleUnlock_right:
  "handleUnlock test_platform t
     \<lparr>app_world = test_saved_world, route = r,
      screen = \<lparr>us_masterPassword = str ''hunter2'', us_isUnlocking = u, us_attempts = n\<rparr>,
      dialogs = ds\<rparr> =
   \<lparr>app_world = dispatch t (UNLOCK_VAULT [] (str ''hunter2'')) test_saved_world, route = VaultRoute,
    screen = mount_UnlockScreen, dialogs = ds\<rparr>"
  by (simp add: handleUnlock_def not_blank unlock_right navigation_replace_def)

text \<open>
  Below the threshold a failed attempt only shows 'Incorrect Password' and leaves the
  session as it is.
\<close>

lemma fewer_than_three_failures:
  assumes "unlockVault P now (app_world a) (us_masterPassword (screen a)) = (Inl e, w')"
    and "\<not> blank (us_masterPassword (screen a))" "us_attempts (screen a) + 1 < 3"
  shows "route (handleUnlock P now a) = route a \<and>
         auth (app_world (handleUnlock P now a)) = auth w' \<and>
         dialogs (handleUnlock P now a) =
           dialogs a @ [IncorrectPassword (3 - (us_attempts (screen a) + 1))]"
  using assms by (simp add: handleUnlock_def Let_def)

text \<open>
  C9 fails on the code. After the third consecutive failed unlock the screen only opens
  the dialog 'Too Many Failed Attempts'; its button calls \<open>handleLogout\<close>, which asks 'Are
  you sure you want to logout?'. After OK and Cancel the user is still logged in and on
  the unlock screen, with the counter at 3, and a fourth attempt with the right password
  unlocks the vault.
\<close>

theorem three_failures_no_teardown:
  "let wrong = str ''wrong'';
       t = str ''2024-06-02T00:00:00.000Z'';
       a3 = run test_platform t test_app
              [TypePassword wrong, PressUnlock, PressButton ButtonOK,
               TypePassword wrong, PressUnlock, PressButton ButtonOK,
               TypePassword wrong, PressUnlock];
       a4 = run test_platform t a3 [PressButton ButtonOK, PressButton ButtonCancel];
       a5 = run test_platform t a4 [TypePassword (str ''hunter2''), PressUnlock]
   in us_attempts (screen a3) = 3 \<and> dialogs a3 = [TooManyFailedAttempts] \<and>
      route a3 = UnlockRoute \<and> isLoggedIn (auth (app_world a3)) \<and>
      route a4 = UnlockRoute \<and> dialogs a4 = [] \<and> isLoggedIn (auth (app_world a4)) \<and>
      currentUser (auth (app_world a4)) = Some test_user \<and>
      route a5 = VaultRoute \<and> \<not> isLocked (vault (app_world a5))"
proof -
  let ?t = "str ''2024-06-02T00:00:00.000Z''"
  have a3: "run test_platform ?t test_app
              [TypePassword (str ''wrong''), PressUnlock, PressButton ButtonOK,
               TypePassword (str ''wrong''), PressUnlock, PressButton ButtonOK,
               TypePassword (str ''wrong''), PressUnlock] =
        \<lparr>app_world = test_saved_world, route = UnlockRoute,
         screen = \<lparr>us_masterPassword = [], us_isUnlocking = False, us_attempts = 3\<rparr>,
         dialogs = [TooManyFailedAttempts]\<rparr>"
    by (simp add: run_def test_app_def mount_UnlockScreen_def handleUnlock_wrong press_def)
  have a4: "run test_platform ?t
        \<lparr>app_world = test_saved_world, route = UnlockRoute,
         screen = \<lparr>us_masterPassword = [], us_isUnlocking = False, us_attempts = 3\<rparr>,
         dialogs = [TooManyFailedAttempts]\<rparr> [PressButton ButtonOK, PressButton ButtonCancel] =
        \<lparr>app_world = test_saved_world, route = UnlockRoute,
         screen = \<lparr>us_masterPassword = [], us_isUnlocking = False, us_attempts = 3\<rparr>,
         dialogs = []\<rparr>"
    by (simp add: run_def press_def handleLogout_def)
  have a5: "run test_platform ?t
        \<lparr>app_world = test_saved_world, route = UnlockRoute,
         screen = \<lparr>us_masterPassword = [], us_isUnlocking = False, us_attempts = 3\<rparr>,
         dialogs = []\<rparr> [TypePassword (str ''hunter2''), PressUnlock] =
        \<lparr>app_world = dispatch ?t (UNLOCK_VAULT [] (str ''hunter2'')) test_saved_world,
         route = VaultRoute, screen = mount_UnlockScreen, dialogs = []\<rparr>"
    by (simp add: run_def handleUnlock_right)
  show ?thesis
    unfolding Let_def a3 a4 a5 by (simp add: test_saved_world_sel dispatch_def)
qed

end
